theory Spec2Isabelle
  imports Main
begin

section \<open>Data model (types.ts)\<close>

text \<open>
  The account record of \<^verbatim>\<open>types.ts\<close>. Every field declared with \<^verbatim>\<open>?\<close> is an
  option (\<open>None\<close> is JavaScript's \<^verbatim>\<open>undefined\<close>). Timestamps, durations and
  priorities are integers; the two counters are natural numbers (the code only ever
  assigns 0, the breaker threshold, or the old value plus one to them).
  Log lines are left out of the model, except where rendering a timestamp with
  \<^verbatim>\<open>new Date(t).toISOString()\<close> can throw.
\<close>

datatype RotationStrategy = RoundRobin | Priority | LeastUsed | Failover

record AntigravityAccount =
  email :: string
  accessToken :: string
  refreshToken :: string
  expiresAt :: int
  projectId :: "string option"
  priority :: "int option"
  lastUsed :: "int option"
  requestCount :: "nat option"
  failureCount :: "nat option"
  isRateLimited :: "bool option"
  rateLimitedUntil :: "int option"
  lastRefreshed :: "int option"

record TokenResponse =
  access :: string
  expires :: int

subsection \<open>JavaScript truthiness\<close>

text \<open>
  \<^verbatim>\<open>a.isRateLimited\<close> in a condition is true only for the value \<^verbatim>\<open>true\<close>;
  a number in a condition is true unless it is missing or 0; \<^verbatim>\<open>x || d\<close> is \<open>d\<close>
  when \<open>x\<close> is missing or 0.
\<close>

definition truthyBool :: "bool option \<Rightarrow> bool" where
  "truthyBool b = (b = Some True)"

definition truthyNum :: "int option \<Rightarrow> bool" where
  "truthyNum n = (case n of None \<Rightarrow> False | Some v \<Rightarrow> v \<noteq> 0)"

definition orNat :: "nat option \<Rightarrow> nat \<Rightarrow> nat" where
  "orNat x d = (case x of None \<Rightarrow> d | Some v \<Rightarrow> if v = 0 then d else v)"

definition orInt :: "int option \<Rightarrow> int \<Rightarrow> int" where
  "orInt x d = (case x of None \<Rightarrow> d | Some v \<Rightarrow> if v = 0 then d else v)"

section \<open>AccountManager (account-manager.ts)\<close>

text \<open>
  The manager keeps a JavaScript \<^verbatim>\<open>Map\<close> from email to account. A \<^verbatim>\<open>Map\<close>
  iterates in insertion order and \<^verbatim>\<open>set\<close> on an existing key keeps its place, so
  the store is an association list. \<^verbatim>\<open>updateAccount\<close> merges a partial update
  into the stored record (\<^verbatim>\<open>{ ...account, ...updates }\<close>): the update is the
  function that overwrites the named fields. Loading and saving the JSON file are
  outside the model.
\<close>

type_synonym AccountManager = "(string \<times> AntigravityAccount) list"

fun getAccount :: "AccountManager \<Rightarrow> string \<Rightarrow> AntigravityAccount option" where
  "getAccount [] e = None"
| "getAccount ((k, a) # rest) e = (if k = e then Some a else getAccount rest e)"

fun updateAccount ::
  "string \<Rightarrow> (AntigravityAccount \<Rightarrow> AntigravityAccount) \<Rightarrow> AccountManager \<Rightarrow> AccountManager"
where
  "updateAccount e updates [] = []"
| "updateAccount e updates ((k, a) # rest) =
     (if k = e then (k, updates a) # rest else (k, a) # updateAccount e updates rest)"

definition getAll :: "AccountManager \<Rightarrow> AntigravityAccount list" where
  "getAll m = map snd m"

text \<open>
  What \<^verbatim>\<open>load\<close> and \<^verbatim>\<open>addAccount\<close> establish and no update of the rotator
  breaks: keys are distinct (it is a \<^verbatim>\<open>Map\<close>) and every account is stored under
  its own email.
\<close>

definition store_ok :: "AccountManager \<Rightarrow> bool" where
  "store_ok m = (distinct (map fst m) \<and> list_all (\<lambda>(k, a). email a = k) m)"

section \<open>AccountRotator (rotator.ts)\<close>

definition CIRCUIT_BREAKER_THRESHOLD :: nat where
  "CIRCUIT_BREAKER_THRESHOLD = 3"

definition RATE_LIMIT_COOLDOWN_MS :: int where
  "RATE_LIMIT_COOLDOWN_MS = 60 * 1000"

definition MAX_401_RETRIES :: nat where
  "MAX_401_RETRIES = 3"

text \<open>
  The rotator's mutable state: the manager it owns, the strategy and the round-robin
  cursor. An operation that reads \<^verbatim>\<open>Date.now()\<close> once takes the reading as
  \<open>now\<close>. A handler that awaits a write to the accounts file between two readings
  takes a \<open>clock\<close>: \<open>clock 0\<close> is the reading of its first step, \<open>clock 1\<close> that of
  the next step, and so on; nothing is assumed about how far apart they are.
\<close>

record rotator =
  manager :: AccountManager
  strategy :: RotationStrategy
  currentRoundRobinIndex :: nat

subsection \<open>Exceptions\<close>

text \<open>
  \<^verbatim>\<open>new Date(t).toISOString()\<close> throws a \<^verbatim>\<open>RangeError\<close> when \<open>t\<close> is not a
  time value, that is when it lies more than 8.64e15 ms from the epoch. An operation
  that can throw returns the error or its value, next to the state it leaves behind;
  \<open>andThen\<close> is \<^verbatim>\<open>await\<close> followed by the rest of the body: an error ends the
  body.
\<close>

datatype error = RangeError

definition dateInRange :: "int \<Rightarrow> bool" where
  "dateInRange t = (- 8640000000000000 \<le> t \<and> t \<le> 8640000000000000)"

definition andThen ::
  "(error + 'a) \<times> rotator \<Rightarrow> ('a \<Rightarrow> rotator \<Rightarrow> (error + 'b) \<times> rotator) \<Rightarrow>
   (error + 'b) \<times> rotator" where
  "andThen r k = (case r of (Inl err, st) \<Rightarrow> (Inl err, st) | (Inr v, st) \<Rightarrow> k v st)"

subsection \<open>clearExpiredRateLimits\<close>

definition rateLimitExpired :: "int \<Rightarrow> AntigravityAccount \<Rightarrow> bool" where
  "rateLimitExpired now account =
     (truthyBool (isRateLimited account) \<and> truthyNum (rateLimitedUntil account) \<and>
      (case rateLimitedUntil account of None \<Rightarrow> False | Some t \<Rightarrow> t \<le> now))"

definition clearedUpdate :: "AntigravityAccount \<Rightarrow> AntigravityAccount" where
  "clearedUpdate a = a\<lparr>isRateLimited := Some False, rateLimitedUntil := None, failureCount := Some 0\<rparr>"

text \<open>The \<^verbatim>\<open>for\<close> loop over the snapshot returned by \<^verbatim>\<open>getAll\<close>.\<close>

fun clearLoop :: "int \<Rightarrow> AntigravityAccount list \<Rightarrow> AccountManager \<Rightarrow> nat \<Rightarrow> nat \<times> AccountManager" where
  "clearLoop now [] m cleared = (cleared, m)"
| "clearLoop now (account # rest) m cleared =
     (if rateLimitExpired now account
      then clearLoop now rest (updateAccount (email account) clearedUpdate m) (cleared + 1)
      else clearLoop now rest m cleared)"

definition clearExpiredRateLimits :: "int \<Rightarrow> rotator \<Rightarrow> nat \<times> rotator" where
  "clearExpiredRateLimits now st =
     (let (cleared, m) = clearLoop now (getAll (manager st)) (manager st) 0
      in (cleared, st\<lparr>manager := m\<rparr>))"

subsection \<open>Selection strategies\<close>

text \<open>
  The four private selectors are only called on a non-empty list; on an empty one
  the source would throw while reading \<^verbatim>\<open>.email\<close> of \<^verbatim>\<open>undefined\<close>, which is
  \<open>None\<close> here. \<^verbatim>\<open>Array.prototype.sort\<close> is stable, as is \<open>sort_key\<close>; the
  comparator \<^verbatim>\<open>(b.priority || 1) - (a.priority || 1)\<close> orders by descending
  priority, that is by ascending negated priority.
\<close>

definition selectRoundRobin ::
  "AntigravityAccount list \<Rightarrow> rotator \<Rightarrow> AntigravityAccount option \<times> rotator" where
  "selectRoundRobin accounts st =
     (let i = (if currentRoundRobinIndex st \<ge> length accounts then 0 else currentRoundRobinIndex st)
      in if accounts = [] then (None, st\<lparr>currentRoundRobinIndex := i\<rparr>)
         else (Some (accounts ! i), st\<lparr>currentRoundRobinIndex := (i + 1) mod length accounts\<rparr>))"

definition effPriority :: "AntigravityAccount \<Rightarrow> int" where
  "effPriority a = orInt (priority a) 1"

definition selectPriority :: "AntigravityAccount list \<Rightarrow> AntigravityAccount option" where
  "selectPriority accounts =
     (case sort_key (\<lambda>a. - effPriority a) accounts of [] \<Rightarrow> None | a # _ \<Rightarrow> Some a)"

definition selectLeastUsed :: "AntigravityAccount list \<Rightarrow> AntigravityAccount option" where
  "selectLeastUsed accounts =
     (case sort_key (\<lambda>a. orNat (requestCount a) 0) accounts of [] \<Rightarrow> None | a # _ \<Rightarrow> Some a)"

definition selectFailover :: "AntigravityAccount list \<Rightarrow> AntigravityAccount option" where
  "selectFailover accounts = (case accounts of [] \<Rightarrow> None | a # _ \<Rightarrow> Some a)"

subsection \<open>getNextAccount\<close>

definition available :: "AccountManager \<Rightarrow> AntigravityAccount list" where
  "available m = filter (\<lambda>a. \<not> truthyBool (isRateLimited a)) (getAll m)"

definition getNextAccount :: "int \<Rightarrow> rotator \<Rightarrow> AntigravityAccount option \<times> rotator" where
  "getNextAccount now st =
     (let st1 = snd (clearExpiredRateLimits now st);
          avail = available (manager st1)
      in if length avail = 0 then (None, st1)
         else (case strategy st1 of
                 RoundRobin \<Rightarrow> selectRoundRobin avail st1
               | Priority \<Rightarrow> (selectPriority avail, st1)
               | LeastUsed \<Rightarrow> (selectLeastUsed avail, st1)
               | Failover \<Rightarrow> (selectFailover avail, st1)))"

subsection \<open>Outcome reporting and the circuit breaker\<close>

definition reportSuccess :: "string \<Rightarrow> int \<Rightarrow> rotator \<Rightarrow> rotator" where
  "reportSuccess e now st =
     (case getAccount (manager st) e of
        None \<Rightarrow> st
      | Some account \<Rightarrow>
          st\<lparr>manager := updateAccount e
                (\<lambda>a. a\<lparr>requestCount := Some (orNat (requestCount account) 0 + 1),
                        failureCount := Some 0,
                        lastUsed := Some now,
                        isRateLimited := Some False,
                        rateLimitedUntil := None\<rparr>)
                (manager st)\<rparr>)"

text \<open>
  When the account is rate limited by the call, the log line renders
  \<open>rateLimitedUntil\<close> as a date before \<^verbatim>\<open>updateAccount\<close> runs: if that throws,
  nothing has been written. The two readings of the clock (for \<open>lastUsed\<close> and for
  \<open>rateLimitedUntil\<close>) are in one synchronous block and are the one reading \<open>now\<close>.
\<close>

definition reportFailure ::
  "string \<Rightarrow> bool \<Rightarrow> int \<Rightarrow> int \<Rightarrow> rotator \<Rightarrow> (error + bool) \<times> rotator" where
  "reportFailure e isRateLimit cooldownMs now st =
     (case getAccount (manager st) e of
        None \<Rightarrow> (Inr False, st)
      | Some account \<Rightarrow>
          (let newFailureCount = orNat (failureCount account) 0 + 1;
               circuitBroken = (newFailureCount \<ge> CIRCUIT_BREAKER_THRESHOLD);
               updates = (\<lambda>a. if isRateLimit \<or> circuitBroken
                   then a\<lparr>failureCount := Some newFailureCount, lastUsed := Some now,
                          isRateLimited := Some True, rateLimitedUntil := Some (now + cooldownMs)\<rparr>
                   else a\<lparr>failureCount := Some newFailureCount, lastUsed := Some now\<rparr>)
           in if (isRateLimit \<or> circuitBroken) \<and> \<not> dateInRange (now + cooldownMs)
              then (Inl RangeError, st)
              else (Inr circuitBroken, st\<lparr>manager := updateAccount e updates (manager st)\<rparr>)))"

subsection \<open>Status handlers\<close>

text \<open>
  \<^verbatim>\<open>handle429\<close> reads the clock in \<^verbatim>\<open>reportFailure\<close>, awaits the write, and
  reads it again when \<^verbatim>\<open>getNextAccount\<close> clears expired rate limits.
\<close>

definition handle429 ::
  "string \<Rightarrow> int option \<Rightarrow> (nat \<Rightarrow> int) \<Rightarrow> rotator \<Rightarrow>
   (error + AntigravityAccount option) \<times> rotator" where
  "handle429 currentEmail retryAfterMs clock st =
     (let cooldown = orInt retryAfterMs RATE_LIMIT_COOLDOWN_MS
      in andThen (reportFailure currentEmail True cooldown (clock 0) st)
           (\<lambda>_ st1. case getNextAccount (clock 1) st1 of
                       (newAccount, st2) \<Rightarrow> (Inr newAccount, st2)))"

text \<open>The result of \<^verbatim>\<open>handle401\<close> is the pair (shouldRetry, newAccount).\<close>

definition handle401 ::
  "string \<Rightarrow> (nat \<Rightarrow> int) \<Rightarrow> rotator \<Rightarrow>
   (error + bool \<times> AntigravityAccount option) \<times> rotator" where
  "handle401 currentEmail clock st =
     (case getAccount (manager st) currentEmail of
        None \<Rightarrow> (case getNextAccount (clock 0) st of
                   (newAccount, st1) \<Rightarrow> (Inr (False, newAccount), st1))
      | Some account \<Rightarrow>
          (let fc = orNat (failureCount account) 0 + 1;
               st1 = st\<lparr>manager := updateAccount currentEmail
                        (\<lambda>a. a\<lparr>failureCount := Some fc, lastUsed := Some (clock 0)\<rparr>) (manager st)\<rparr>
           in if fc < MAX_401_RETRIES then (Inr (True, None), st1)
              else andThen (reportFailure currentEmail False RATE_LIMIT_COOLDOWN_MS (clock 1) st1)
                     (\<lambda>_ st2. case getNextAccount (clock 2) st2 of
                                 (newAccount, st3) \<Rightarrow> (Inr (False, newAccount), st3))))"

definition handle403 ::
  "string \<Rightarrow> (nat \<Rightarrow> int) \<Rightarrow> rotator \<Rightarrow> AntigravityAccount option \<times> rotator" where
  "handle403 currentEmail clock st =
     (let longCooldown = 60 * 60 * 1000;
          st1 = st\<lparr>manager := updateAccount currentEmail
                   (\<lambda>a. a\<lparr>isRateLimited := Some True,
                           rateLimitedUntil := Some (clock 0 + longCooldown),
                           failureCount := Some CIRCUIT_BREAKER_THRESHOLD\<rparr>) (manager st)\<rparr>
      in getNextAccount (clock 1) st1)"

text \<open>The result of \<^verbatim>\<open>handle5xx\<close> is the pair (shouldRetry, delay).\<close>

definition handle5xx :: "string \<Rightarrow> int \<Rightarrow> rotator \<Rightarrow> (error + bool \<times> int) \<times> rotator" where
  "handle5xx currentEmail now st =
     (let account = getAccount (manager st) currentEmail;
          fc = orNat (case account of None \<Rightarrow> None | Some a \<Rightarrow> failureCount a) 0 + 1
      in if fc < CIRCUIT_BREAKER_THRESHOLD
         then (Inr (True, 2 ^ (fc - 1) * 1000),
               st\<lparr>manager := updateAccount currentEmail (\<lambda>a. a\<lparr>failureCount := Some fc\<rparr>) (manager st)\<rparr>)
         else andThen (reportFailure currentEmail False RATE_LIMIT_COOLDOWN_MS now st)
                (\<lambda>_ st1. (Inr (False, 0), st1)))"

subsection \<open>Token refresh support\<close>

definition needsRefresh :: "int \<Rightarrow> int \<Rightarrow> AntigravityAccount \<Rightarrow> bool" where
  "needsRefresh thresholdMs now a =
     (\<not> truthyBool (isRateLimited a) \<and> expiresAt a \<noteq> 0 \<and> expiresAt a - now < thresholdMs)"

definition getAccountsNeedingRefresh :: "int \<Rightarrow> int \<Rightarrow> rotator \<Rightarrow> AntigravityAccount list" where
  "getAccountsNeedingRefresh thresholdMs now st =
     filter (needsRefresh thresholdMs now) (getAll (manager st))"

text \<open>
  The log line of \<^verbatim>\<open>updateAccountTokens\<close> renders the new expiry as a date after
  the write.
\<close>

definition updateAccountTokens ::
  "string \<Rightarrow> string \<Rightarrow> int \<Rightarrow> int \<Rightarrow> rotator \<Rightarrow> (error + unit) \<times> rotator" where
  "updateAccountTokens e newAccessToken newExpiresAt now st =
     (if dateInRange newExpiresAt then Inr () else Inl RangeError,
      st\<lparr>manager := updateAccount e
           (\<lambda>a. a\<lparr>accessToken := newAccessToken, expiresAt := newExpiresAt,
                   lastRefreshed := Some now, failureCount := Some 0\<rparr>) (manager st)\<rparr>)"

section \<open>The plugin: refresh sweep and response interceptor\<close>

definition TOKEN_EXPIRY_THRESHOLD_MS :: int where
  "TOKEN_EXPIRY_THRESHOLD_MS = 5 * 60 * 1000"

text \<open>
  \<^verbatim>\<open>refreshAccessToken\<close> is the external credential refresher: a parameter of the
  sweep, \<open>None\<close> when it throws. The loop is the \<^verbatim>\<open>for\<close> loop of
  \<^verbatim>\<open>refreshAllTokens\<close> over the accounts that \<^verbatim>\<open>getAccountsNeedingRefresh\<close>
  returned. Its body (\<open>refreshOne\<close>) is a \<^verbatim>\<open>try\<close> whose \<^verbatim>\<open>catch\<close> reports
  the failure (\<open>refreshFailed\<close>); an error thrown inside that \<^verbatim>\<open>catch\<close> reaches
  the outer \<^verbatim>\<open>catch\<close> of \<^verbatim>\<open>refreshAllTokens\<close>, which ends the sweep.
\<close>

definition refreshFailed :: "AntigravityAccount \<Rightarrow> int \<Rightarrow> rotator \<Rightarrow> (error + unit) \<times> rotator" where
  "refreshFailed account now st =
     andThen (reportFailure (email account) False RATE_LIMIT_COOLDOWN_MS now st)
       (\<lambda>_ st1. (Inr (), st1))"

definition refreshOne ::
  "(string \<Rightarrow> TokenResponse option) \<Rightarrow> int \<Rightarrow> AntigravityAccount \<Rightarrow> rotator \<Rightarrow>
   (error + unit) \<times> rotator" where
  "refreshOne refreshAccessToken now account st =
     (case refreshAccessToken (refreshToken account) of
        Some tokens \<Rightarrow>
          (case updateAccountTokens (email account) (access tokens) (expires tokens) now st of
             (Inr _, st1) \<Rightarrow> (Inr (), st1)
           | (Inl _, st1) \<Rightarrow> refreshFailed account now st1)
      | None \<Rightarrow> refreshFailed account now st)"

fun refreshLoop ::
  "(string \<Rightarrow> TokenResponse option) \<Rightarrow> int \<Rightarrow> AntigravityAccount list \<Rightarrow> rotator \<Rightarrow> rotator" where
  "refreshLoop refreshAccessToken now [] st = st"
| "refreshLoop refreshAccessToken now (account # rest) st =
     (case refreshOne refreshAccessToken now account st of
        (Inr _, st1) \<Rightarrow> refreshLoop refreshAccessToken now rest st1
      | (Inl _, st1) \<Rightarrow> st1)"

definition refreshAllTokens :: "(string \<Rightarrow> TokenResponse option) \<Rightarrow> int \<Rightarrow> rotator \<Rightarrow> rotator" where
  "refreshAllTokens refreshAccessToken now st =
     (let accounts = getAccountsNeedingRefresh TOKEN_EXPIRY_THRESHOLD_MS now st
      in if length accounts = 0 then st else refreshLoop refreshAccessToken now accounts st)"

datatype Action = Continue | Retry | Switch | Fail

record Response =
  action :: Action
  newCredentials :: "AntigravityAccount option"
  delay :: "int option"

text \<open>
  After a 5xx that is not retried the interceptor itself calls
  \<^verbatim>\<open>getNextAccount\<close>, which takes the next reading of the clock.
\<close>

definition handleResponse ::
  "int \<Rightarrow> string \<Rightarrow> int option \<Rightarrow> (nat \<Rightarrow> int) \<Rightarrow> rotator \<Rightarrow> (error + Response) \<times> rotator" where
  "handleResponse status currentEmail retryAfterMs clock st =
     (if status \<ge> 200 \<and> status < 300 then
        (Inr \<lparr>action = Continue, newCredentials = None, delay = None\<rparr>,
         reportSuccess currentEmail (clock 0) st)
      else if status = 429 then
        andThen (handle429 currentEmail retryAfterMs clock st)
          (\<lambda>newAccount st1. case newAccount of
             Some a \<Rightarrow> (Inr \<lparr>action = Switch, newCredentials = Some a, delay = None\<rparr>, st1)
           | None \<Rightarrow> (Inr \<lparr>action = Fail, newCredentials = None, delay = None\<rparr>, st1))
      else if status = 401 then
        andThen (handle401 currentEmail clock st)
          (\<lambda>result st1. case result of
             (True, _) \<Rightarrow> (Inr \<lparr>action = Retry, newCredentials = None, delay = Some 1000\<rparr>, st1)
           | (False, Some a) \<Rightarrow> (Inr \<lparr>action = Switch, newCredentials = Some a, delay = None\<rparr>, st1)
           | (False, None) \<Rightarrow> (Inr \<lparr>action = Fail, newCredentials = None, delay = None\<rparr>, st1))
      else if status = 403 then
        (case handle403 currentEmail clock st of
           (Some a, st1) \<Rightarrow> (Inr \<lparr>action = Switch, newCredentials = Some a, delay = None\<rparr>, st1)
         | (None, st1) \<Rightarrow> (Inr \<lparr>action = Fail, newCredentials = None, delay = None\<rparr>, st1))
      else if status \<ge> 500 \<and> status < 600 then
        andThen (handle5xx currentEmail (clock 0) st)
          (\<lambda>result st1. case result of
             (True, d) \<Rightarrow> (Inr \<lparr>action = Retry, newCredentials = None, delay = Some d\<rparr>, st1)
           | (False, _) \<Rightarrow>
               (case getNextAccount (clock 1) st1 of
                  (Some a, st2) \<Rightarrow>
                    (Inr \<lparr>action = Switch, newCredentials = Some a, delay = None\<rparr>, st2)
                | (None, st2) \<Rightarrow> (Inr \<lparr>action = Fail, newCredentials = None, delay = None\<rparr>, st2)))
      else
        andThen (reportFailure currentEmail False RATE_LIMIT_COOLDOWN_MS (clock 0) st)
          (\<lambda>_ st1. (Inr \<lparr>action = Continue, newCredentials = None, delay = None\<rparr>, st1)))"

section \<open>Auxiliary definitions for the statements\<close>

text \<open>
  The record that \<^verbatim>\<open>reportFailure\<close> writes for a known account, as one function
  of the stored record (the \<^verbatim>\<open>updates\<close> object merged into it).
\<close>

definition failedUpdate :: "bool \<Rightarrow> int \<Rightarrow> int \<Rightarrow> AntigravityAccount \<Rightarrow> AntigravityAccount" where
  "failedUpdate isRateLimit cooldownMs now a =
     (if isRateLimit \<or> orNat (failureCount a) 0 + 1 \<ge> CIRCUIT_BREAKER_THRESHOLD
      then a\<lparr>failureCount := Some (orNat (failureCount a) 0 + 1), lastUsed := Some now,
             isRateLimited := Some True, rateLimitedUntil := Some (now + cooldownMs)\<rparr>
      else a\<lparr>failureCount := Some (orNat (failureCount a) 0 + 1), lastUsed := Some now\<rparr>)"

text \<open>One store entry after the lazy clearing pass.\<close>

definition clearEntry :: "int \<Rightarrow> string \<times> AntigravityAccount \<Rightarrow> string \<times> AntigravityAccount" where
  "clearEntry now ka = (fst ka, if rateLimitExpired now (snd ka) then clearedUpdate (snd ka) else snd ka)"

subsection \<open>Concrete stores\<close>

text \<open>
  The record that \<^verbatim>\<open>addAccount\<close> stores for a new login (priority 1, both counters
  0, not rate limited), and a rotator over a list of accounts, each stored under its
  own email.
\<close>

definition freshAccount :: "string \<Rightarrow> AntigravityAccount" where
  "freshAccount e =
     \<lparr>email = e, accessToken = ''at'', refreshToken = ''rt'', expiresAt = 7200000,
      projectId = None, priority = Some 1, lastUsed = None, requestCount = Some 0,
      failureCount = Some 0, isRateLimited = Some False, rateLimitedUntil = None,
      lastRefreshed = None\<rparr>"

definition rotatorOf :: "AntigravityAccount list \<Rightarrow> RotationStrategy \<Rightarrow> rotator" where
  "rotatorOf as s = \<lparr>manager = map (\<lambda>a. (email a, a)) as, strategy = s, currentRoundRobinIndex = 0\<rparr>"

section \<open>The account store\<close>

lemma getAccount_updateAccount_same:
  "getAccount (updateAccount e u m) e = map_option u (getAccount m e)"
  by (induction m) auto

lemma getAccount_updateAccount_other:
  "e' \<noteq> e \<Longrightarrow> getAccount (updateAccount e u m) e' = getAccount m e'"
  by (induction m) auto

lemma updateAccount_absent:
  "getAccount m e = None \<Longrightarrow> updateAccount e u m = m"
  by (induction m) (auto split: if_splits)

section \<open>Outcome reporting\<close>

lemma updateAccount_agree:
  "getAccount m e = Some a \<Longrightarrow> u a = v a \<Longrightarrow> updateAccount e u m = updateAccount e v m"
  by (induction m) (auto split: if_splits)

lemma reportFailure_known:
  assumes "getAccount (manager st) e = Some a"
  shows "reportFailure e rl cd now st =
     (if (rl \<or> CIRCUIT_BREAKER_THRESHOLD \<le> orNat (failureCount a) 0 + 1) \<and> \<not> dateInRange (now + cd)
      then (Inl RangeError, st)
      else (Inr (CIRCUIT_BREAKER_THRESHOLD \<le> orNat (failureCount a) 0 + 1),
            st\<lparr>manager := updateAccount e (failedUpdate rl cd now) (manager st)\<rparr>))"
proof -
  have "updateAccount e (\<lambda>x. if rl \<or> CIRCUIT_BREAKER_THRESHOLD \<le> orNat (failureCount a) 0 + 1
           then x\<lparr>failureCount := Some (orNat (failureCount a) 0 + 1), lastUsed := Some now,
                  isRateLimited := Some True, rateLimitedUntil := Some (now + cd)\<rparr>
           else x\<lparr>failureCount := Some (orNat (failureCount a) 0 + 1), lastUsed := Some now\<rparr>)
          (manager st)
        = updateAccount e (failedUpdate rl cd now) (manager st)"
    (is "?lhs = ?rhs")
    by (rule updateAccount_agree [OF assms]) (simp add: failedUpdate_def)
  then have "?rhs = ?lhs" by simp
  then show ?thesis
    using assms by (simp add: reportFailure_def Let_def del: One_nat_def add_Suc_right)
qed

lemma reportFailure_unknown:
  "getAccount (manager st) e = None \<Longrightarrow> reportFailure e rl cd now st = (Inr False, st)"
  by (simp add: reportFailure_def)

lemma reportFailure_returns:
  "getAccount (manager st) e = Some a \<Longrightarrow> dateInRange (now + cd) \<Longrightarrow>
   reportFailure e rl cd now st =
     (Inr (CIRCUIT_BREAKER_THRESHOLD \<le> orNat (failureCount a) 0 + 1),
      st\<lparr>manager := updateAccount e (failedUpdate rl cd now) (manager st)\<rparr>)"
  by (simp add: reportFailure_known)

lemma reportFailure_plain:
  "getAccount (manager st) e = Some a \<Longrightarrow> orNat (failureCount a) 0 + 1 < CIRCUIT_BREAKER_THRESHOLD \<Longrightarrow>
   reportFailure e False cd now st =
     (Inr False, st\<lparr>manager := updateAccount e (failedUpdate False cd now) (manager st)\<rparr>)"
  by (simp add: reportFailure_known)

lemma reportFailure_lookup:
  "getAccount (manager st) e = Some a \<Longrightarrow> dateInRange (now + cd) \<Longrightarrow>
   getAccount (manager (snd (reportFailure e rl cd now st))) e = Some (failedUpdate rl cd now a)"
  by (simp add: reportFailure_returns getAccount_updateAccount_same)

lemma reportFailure_lookup_plain:
  "getAccount (manager st) e = Some a \<Longrightarrow> orNat (failureCount a) 0 + 1 < CIRCUIT_BREAKER_THRESHOLD \<Longrightarrow>
   getAccount (manager (snd (reportFailure e False cd now st))) e = Some (failedUpdate False cd now a)"
  by (simp add: reportFailure_plain getAccount_updateAccount_same)

lemma reportFailure_lookup_other:
  "e' \<noteq> e \<Longrightarrow>
   getAccount (manager (snd (reportFailure e rl cd now st))) e' = getAccount (manager st) e'"
  by (cases "getAccount (manager st) e")
     (simp_all add: reportFailure_known reportFailure_unknown getAccount_updateAccount_other)

lemma failureCount_failedUpdate:
  "failureCount (failedUpdate rl cd now a) = Some (orNat (failureCount a) 0 + 1)"
  by (simp add: failedUpdate_def)

lemma orNat_Some_Suc: "orNat (Some (Suc n)) d = Suc n"
  by (simp add: orNat_def)

text \<open>
  C1. What \<^verbatim>\<open>reportFailure\<close> does for an account present in the store. When the
  call rate-limits the account (\<open>isRateLimit\<close>, or the incremented count is at least
  3) and \<open>now + cooldownMs\<close> is not a date that can be rendered, the log line throws
  a \<^verbatim>\<open>RangeError\<close> before the write: the failure count is not incremented,
  \<open>lastUsed\<close> is not set and the account is not rate limited. In every other case
  the call increments the failure count (a missing count is 0), sets \<open>lastUsed\<close> to
  now, and sets \<open>isRateLimited = true\<close> and \<open>rateLimitedUntil = now + cooldownMs\<close>
  exactly when \<open>isRateLimit\<close> holds or the incremented count is at least 3, leaving
  both fields as they were otherwise. Hence three consecutive reports with renderable
  dates leave the account rate limited, and two consecutive plain reports on an
  account with no failures do not rate-limit it.
\<close>

theorem reportFailure_effect:
  assumes "getAccount (manager st) e = Some a"
  shows "(if (isRateLimit \<or> orNat (failureCount a) 0 + 1 \<ge> 3) \<and> \<not> dateInRange (now + cooldownMs)
          then reportFailure e isRateLimit cooldownMs now st = (Inl RangeError, st)
          else (\<exists>a'. getAccount (manager (snd (reportFailure e isRateLimit cooldownMs now st))) e = Some a' \<and>
                  failureCount a' = Some (orNat (failureCount a) 0 + 1) \<and>
                  lastUsed a' = Some now \<and>
                  (if isRateLimit \<or> orNat (failureCount a) 0 + 1 \<ge> 3
                   then isRateLimited a' = Some True \<and> rateLimitedUntil a' = Some (now + cooldownMs)
                   else isRateLimited a' = isRateLimited a \<and> rateLimitedUntil a' = rateLimitedUntil a))) \<and>
         (dateInRange (t1 + c1) \<and> dateInRange (t2 + c2) \<and> dateInRange (t3 + c3) \<longrightarrow>
          (\<exists>a3. getAccount (manager (snd (reportFailure e r3 c3 t3
                  (snd (reportFailure e r2 c2 t2 (snd (reportFailure e r1 c1 t1 st))))))) e = Some a3 \<and>
            isRateLimited a3 = Some True)) \<and>
         (orNat (failureCount a) 0 = 0 \<and> isRateLimited a \<noteq> Some True \<longrightarrow>
          (\<exists>a2. getAccount (manager (snd (reportFailure e False c2 t2
                  (snd (reportFailure e False c1 t1 st))))) e = Some a2 \<and>
            isRateLimited a2 \<noteq> Some True))"
proof -
  have one: "if (isRateLimit \<or> orNat (failureCount a) 0 + 1 \<ge> 3) \<and> \<not> dateInRange (now + cooldownMs)
          then reportFailure e isRateLimit cooldownMs now st = (Inl RangeError, st)
          else (\<exists>a'. getAccount (manager (snd (reportFailure e isRateLimit cooldownMs now st))) e = Some a' \<and>
                  failureCount a' = Some (orNat (failureCount a) 0 + 1) \<and>
                  lastUsed a' = Some now \<and>
                  (if isRateLimit \<or> orNat (failureCount a) 0 + 1 \<ge> 3
                   then isRateLimited a' = Some True \<and> rateLimitedUntil a' = Some (now + cooldownMs)
                   else isRateLimited a' = isRateLimited a \<and> rateLimitedUntil a' = rateLimitedUntil a))"
    by (simp add: reportFailure_known [OF assms] getAccount_updateAccount_same assms failedUpdate_def
        CIRCUIT_BREAKER_THRESHOLD_def)
  have three: "\<exists>a3. getAccount (manager (snd (reportFailure e r3 c3 t3
                  (snd (reportFailure e r2 c2 t2 (snd (reportFailure e r1 c1 t1 st))))))) e = Some a3 \<and>
            isRateLimited a3 = Some True"
    if rng: "dateInRange (t1 + c1) \<and> dateInRange (t2 + c2) \<and> dateInRange (t3 + c3)"
  proof -
    let ?a1 = "failedUpdate r1 c1 t1 a"
    let ?a2 = "failedUpdate r2 c2 t2 ?a1"
    let ?a3 = "failedUpdate r3 c3 t3 ?a2"
    have f2: "failureCount ?a2 = Some (orNat (failureCount a) 0 + 1 + 1)"
      by (simp add: failureCount_failedUpdate orNat_Some_Suc)
    have "isRateLimited ?a3 = Some True"
      by (simp add: failedUpdate_def [of r3] f2 orNat_Some_Suc CIRCUIT_BREAKER_THRESHOLD_def)
    moreover have "getAccount (manager (snd (reportFailure e r3 c3 t3
                 (snd (reportFailure e r2 c2 t2 (snd (reportFailure e r1 c1 t1 st))))))) e = Some ?a3"
      using rng by (intro reportFailure_lookup assms) simp_all
    ultimately show ?thesis by blast
  qed
  have two: "\<exists>a2. getAccount (manager (snd (reportFailure e False c2 t2
                  (snd (reportFailure e False c1 t1 st))))) e = Some a2 \<and>
            isRateLimited a2 \<noteq> Some True"
    if z: "orNat (failureCount a) 0 = 0 \<and> isRateLimited a \<noteq> Some True"
  proof -
    let ?a1 = "failedUpdate False c1 t1 a"
    let ?a2 = "failedUpdate False c2 t2 ?a1"
    have f1: "failureCount ?a1 = Some 1" "isRateLimited ?a1 = isRateLimited a"
      using z by (simp_all add: failedUpdate_def CIRCUIT_BREAKER_THRESHOLD_def)
    have "isRateLimited ?a2 = isRateLimited a"
      using f1 by (simp add: failedUpdate_def [of False c2] CIRCUIT_BREAKER_THRESHOLD_def orNat_def)
    moreover have l1: "getAccount (manager (snd (reportFailure e False c1 t1 st))) e = Some ?a1"
      using z by (intro reportFailure_lookup_plain assms) (simp add: CIRCUIT_BREAKER_THRESHOLD_def)
    have "getAccount (manager (snd (reportFailure e False c2 t2
                 (snd (reportFailure e False c1 t1 st))))) e = Some ?a2"
      using f1 by (intro reportFailure_lookup_plain l1) (simp add: CIRCUIT_BREAKER_THRESHOLD_def orNat_def)
    ultimately show ?thesis using z by auto
  qed
  from one three two show ?thesis by blast
qed

theorem reportFailure_effect_witness:
  "getAccount (manager (rotatorOf [freshAccount ''a''] RoundRobin)) ''a'' = Some (freshAccount ''a'') \<and>
   \<not> dateInRange (1000 + 10000000000000000) \<and>
   reportFailure ''a'' True 10000000000000000 1000 (rotatorOf [freshAccount ''a''] RoundRobin) =
     (Inl RangeError, rotatorOf [freshAccount ''a''] RoundRobin) \<and>
   (\<exists>a'. getAccount (manager (snd (reportFailure ''a'' False 60000 1000
              (rotatorOf [freshAccount ''a''] RoundRobin)))) ''a'' = Some a' \<and>
      failureCount a' = Some 1 \<and> lastUsed a' = Some 1000 \<and>
      isRateLimited a' = Some False \<and> rateLimitedUntil a' = None) \<and>
   (\<exists>a3. getAccount (manager (snd (reportFailure ''a'' False 60000 1003
            (snd (reportFailure ''a'' False 60000 1002 (snd (reportFailure ''a'' False 60000 1001
               (rotatorOf [freshAccount ''a''] RoundRobin)))))))) ''a'' = Some a3 \<and>
      isRateLimited a3 = Some True) \<and>
   (\<exists>a2. getAccount (manager (snd (reportFailure ''a'' False 60000 1002
            (snd (reportFailure ''a'' False 60000 1001
               (rotatorOf [freshAccount ''a''] RoundRobin)))))) ''a'' = Some a2 \<and>
      isRateLimited a2 \<noteq> Some True)"
proof -
  have h: "getAccount (manager (rotatorOf [freshAccount ''a''] RoundRobin)) ''a'' = Some (freshAccount ''a'')"
    by (simp add: rotatorOf_def freshAccount_def)
  have z: "orNat (failureCount (freshAccount ''a'')) 0 = 0 \<and> isRateLimited (freshAccount ''a'') \<noteq> Some True"
    "isRateLimited (freshAccount ''a'') = Some False" "rateLimitedUntil (freshAccount ''a'') = None"
    by (simp_all add: freshAccount_def orNat_def)
  have r: "\<not> dateInRange (1000 + 10000000000000000)"
    "dateInRange (1001 + 60000) \<and> dateInRange (1002 + 60000) \<and> dateInRange (1003 + 60000)"
    by (simp_all add: dateInRange_def)
  show ?thesis
    using h z r
      reportFailure_effect [OF h, where isRateLimit = True and cooldownMs = 10000000000000000 and now = 1000
        and ?r1.0 = False and ?c1.0 = 60000 and ?t1.0 = 1001 and ?r2.0 = False and ?c2.0 = 60000 and ?t2.0 = 1002
        and ?r3.0 = False and ?c3.0 = 60000 and ?t3.0 = 1003]
      reportFailure_effect [OF h, where isRateLimit = False and cooldownMs = 60000 and now = 1000
        and ?r1.0 = False and ?c1.0 = 60000 and ?t1.0 = 1001 and ?r2.0 = False and ?c2.0 = 60000 and ?t2.0 = 1002
        and ?r3.0 = False and ?c3.0 = 60000 and ?t3.0 = 1003]
    by simp
qed

text \<open>
  C2 (as the code has it). Whenever \<open>now + cooldownMs\<close> is a date that can be
  rendered, \<^verbatim>\<open>reportFailure\<close> returns, and the value it returns is
  \<^verbatim>\<open>circuitBroken\<close>: true exactly when the account is in the store and its
  incremented failure count is at least 3. The flag \<open>isRateLimit\<close> has no part in
  it, and every later failure beyond the threshold returns true again.
\<close>

theorem reportFailure_result:
  assumes "dateInRange (now + cooldownMs)"
  shows "fst (reportFailure e isRateLimit cooldownMs now st) =
     Inr (case getAccount (manager st) e of
            None \<Rightarrow> False
          | Some a \<Rightarrow> orNat (failureCount a) 0 + 1 \<ge> 3)"
  using assms
  by (cases "getAccount (manager st) e")
     (simp_all add: reportFailure_known reportFailure_unknown CIRCUIT_BREAKER_THRESHOLD_def)

theorem reportFailure_result_witness:
  "dateInRange (1000 + 60000) \<and>
   fst (reportFailure ''a'' False 60000 1000
          (rotatorOf [(freshAccount ''a'')\<lparr>failureCount := Some 2\<rparr>] RoundRobin)) = Inr True \<and>
   fst (reportFailure ''a'' True 60000 1000 (rotatorOf [freshAccount ''a''] RoundRobin)) = Inr False \<and>
   fst (reportFailure ''g'' True 60000 1000 (rotatorOf [freshAccount ''a''] RoundRobin)) = Inr False"
proof -
  have r: "dateInRange (1000 + 60000)" by (simp add: dateInRange_def)
  from reportFailure_result [OF r, of "''a''" False "rotatorOf [(freshAccount ''a'')\<lparr>failureCount := Some 2\<rparr>] RoundRobin"]
    reportFailure_result [OF r, of "''a''" True "rotatorOf [freshAccount ''a''] RoundRobin"]
    reportFailure_result [OF r, of "''g''" True "rotatorOf [freshAccount ''a''] RoundRobin"] r
  show ?thesis by (simp add: rotatorOf_def freshAccount_def orNat_def)
qed

text \<open>
  C2 as stated fails twice: a rate-limit report on an account with no failures
  returns false (while it does rate-limit the account), and a plain report on an
  account that already has 3 failures (the count becomes 4, beyond the threshold)
  returns true.
\<close>

theorem reportFailure_result_counterexample:
  "getAccount (manager (rotatorOf [freshAccount ''a''] RoundRobin)) ''a'' = Some (freshAccount ''a'') \<and>
   failureCount (freshAccount ''a'') = Some 0 \<and>
   reportFailure ''a'' True 60000 1000 (rotatorOf [freshAccount ''a''] RoundRobin) =
     (Inr False, rotatorOf [(freshAccount ''a'')\<lparr>failureCount := Some 1, lastUsed := Some 1000,
        isRateLimited := Some True, rateLimitedUntil := Some 61000\<rparr>] RoundRobin) \<and>
   getAccount (manager (rotatorOf [(freshAccount ''a'')\<lparr>failureCount := Some 3\<rparr>] RoundRobin)) ''a''
     = Some ((freshAccount ''a'')\<lparr>failureCount := Some 3\<rparr>) \<and>
   fst (reportFailure ''a'' False 60000 1000
          (rotatorOf [(freshAccount ''a'')\<lparr>failureCount := Some 3\<rparr>] RoundRobin)) = Inr True"
  by (simp add: reportFailure_def rotatorOf_def freshAccount_def orNat_def CIRCUIT_BREAKER_THRESHOLD_def
      dateInRange_def)

section \<open>The response interceptor\<close>

text \<open>
  C8. For every status that is not 2xx, 429, 401, 403 or 5xx, the interceptor calls
  \<^verbatim>\<open>reportFailure\<close> with \<open>isRateLimit = false\<close> (and the default cooldown) for the
  reported account and then returns the action continue, with no replacement account
  and no delay. The report returns whenever one minute after the reading of the clock
  is a date that can be rendered, and the state after the call is the one the report
  leaves.
\<close>

theorem handleResponse_unclassified:
  assumes "\<not> (status \<ge> 200 \<and> status < 300)" and "status \<noteq> 429" and "status \<noteq> 401"
    and "status \<noteq> 403" and "\<not> (status \<ge> 500 \<and> status < 600)"
  shows "handleResponse status e retryAfterMs clock st =
           andThen (reportFailure e False RATE_LIMIT_COOLDOWN_MS (clock 0) st)
             (\<lambda>_ st1. (Inr \<lparr>action = Continue, newCredentials = None, delay = None\<rparr>, st1)) \<and>
         (dateInRange (clock 0 + RATE_LIMIT_COOLDOWN_MS) \<longrightarrow>
          handleResponse status e retryAfterMs clock st =
           (Inr \<lparr>action = Continue, newCredentials = None, delay = None\<rparr>,
            snd (reportFailure e False RATE_LIMIT_COOLDOWN_MS (clock 0) st)))"
proof -
  have eq: "handleResponse status e retryAfterMs clock st =
           andThen (reportFailure e False RATE_LIMIT_COOLDOWN_MS (clock 0) st)
             (\<lambda>_ st1. (Inr \<lparr>action = Continue, newCredentials = None, delay = None\<rparr>, st1))"
    unfolding handleResponse_def using assms by auto
  have "andThen (reportFailure e False RATE_LIMIT_COOLDOWN_MS (clock 0) st)
             (\<lambda>_ st1. (Inr \<lparr>action = Continue, newCredentials = None, delay = None\<rparr>, st1)) =
        (Inr \<lparr>action = Continue, newCredentials = None, delay = None\<rparr>,
            snd (reportFailure e False RATE_LIMIT_COOLDOWN_MS (clock 0) st))"
    if "dateInRange (clock 0 + RATE_LIMIT_COOLDOWN_MS)"
    using that
    by (cases "getAccount (manager st) e")
       (simp_all add: reportFailure_returns reportFailure_unknown andThen_def)
  with eq show ?thesis by simp
qed

theorem handleResponse_unclassified_witness:
  "dateInRange (1000 + RATE_LIMIT_COOLDOWN_MS) \<and>
   handleResponse 404 ''a'' None (\<lambda>n. 1000) (rotatorOf [freshAccount ''a''] RoundRobin) =
     (Inr \<lparr>action = Continue, newCredentials = None, delay = None\<rparr>,
      snd (reportFailure ''a'' False RATE_LIMIT_COOLDOWN_MS 1000 (rotatorOf [freshAccount ''a''] RoundRobin))) \<and>
   getAccount (manager (snd (handleResponse 404 ''a'' None (\<lambda>n. 1000)
       (rotatorOf [freshAccount ''a''] RoundRobin)))) ''a''
     = Some ((freshAccount ''a'')\<lparr>failureCount := Some 1, lastUsed := Some 1000\<rparr>)"
proof -
  have r: "dateInRange (1000 + RATE_LIMIT_COOLDOWN_MS)"
    by (simp add: dateInRange_def RATE_LIMIT_COOLDOWN_MS_def)
  from handleResponse_unclassified [of 404 "''a''" None "\<lambda>n. 1000" "rotatorOf [freshAccount ''a''] RoundRobin"] r
  show ?thesis
    by (simp add: reportFailure_def rotatorOf_def freshAccount_def orNat_def CIRCUIT_BREAKER_THRESHOLD_def
        andThen_def)
qed

section \<open>Lazy clearing and selection\<close>

subsection \<open>Store lemmas\<close>

lemma keys_updateAccount: "map fst (updateAccount e u m) = map fst m"
  by (induction m) auto

lemma updateAccount_append:
  "e \<notin> fst ` set xs \<Longrightarrow> updateAccount e u (xs @ ys) = xs @ updateAccount e u ys"
  by (induction xs) auto

lemma store_ok_updateAccount:
  "store_ok m \<Longrightarrow> (\<And>a. email (u a) = email a) \<Longrightarrow> store_ok (updateAccount e u m)"
  unfolding store_ok_def
  by (simp add: keys_updateAccount) (induction m, auto)

lemma getAccount_in_set: "getAccount m e = Some a \<Longrightarrow> (e, a) \<in> set m"
  by (induction m) (auto split: if_splits)

lemma in_set_getAccount:
  "distinct (map fst m) \<Longrightarrow> (k, a) \<in> set m \<Longrightarrow> getAccount m k = Some a"
  by (induction m) (auto simp: image_iff)

lemma store_ok_email: "store_ok m \<Longrightarrow> (k, a) \<in> set m \<Longrightarrow> email a = k"
  by (auto simp: store_ok_def list_all_iff)

lemma getAll_lookup:
  "store_ok m \<Longrightarrow> a \<in> set (getAll m) \<Longrightarrow> getAccount m (email a) = Some a"
proof -
  assume ok: "store_ok m" and "a \<in> set (getAll m)"
  then obtain k where k: "(k, a) \<in> set m" by (auto simp: getAll_def)
  with ok have "email a = k" by (rule store_ok_email)
  moreover from ok k have "getAccount m k = Some a"
    by (simp add: store_ok_def in_set_getAccount)
  ultimately show ?thesis by simp
qed

subsection \<open>The clearing loop\<close>

lemma email_clearedUpdate [simp]: "email (clearedUpdate a) = email a"
  by (simp add: clearedUpdate_def)

lemma fst_clearEntry [simp]: "fst (clearEntry now ka) = fst ka"
  by (simp add: clearEntry_def)

lemma clearLoop_append:
  "distinct (map fst (xs @ ys)) \<Longrightarrow> list_all (\<lambda>(k, a). email a = k) ys \<Longrightarrow>
   snd (clearLoop now (map snd ys) (xs @ ys) c) = xs @ map (clearEntry now) ys"
proof (induction ys arbitrary: xs c)
  case Nil
  then show ?case by simp
next
  case (Cons y ys)
  obtain k a where y: "y = (k, a)" by (cases y)
  from Cons.prems y have ka: "email a = k" and rest: "list_all (\<lambda>(k, a). email a = k) ys"
    by simp_all
  from Cons.prems y have notin: "k \<notin> fst ` set xs" by auto
  have d: "distinct (map fst ((xs @ [z]) @ ys))" if "fst z = k" for z
    using Cons.prems(1) y that by auto
  show ?case
  proof (cases "rateLimitExpired now a")
    case True
    have "updateAccount (email a) clearedUpdate (xs @ y # ys) = (xs @ [(k, clearedUpdate a)]) @ ys"
      using notin by (simp add: updateAccount_append y ka)
    then show ?thesis
      using Cons.IH [OF d [of "(k, clearedUpdate a)"] rest] True
      by (simp add: y clearEntry_def)
  next
    case False
    have "xs @ y # ys = (xs @ [y]) @ ys" by simp
    then show ?thesis
      using Cons.IH [OF d [of y] rest] False
      by (simp add: y clearEntry_def)
  qed
qed

lemma manager_clearExpiredRateLimits:
  "store_ok (manager st) \<Longrightarrow>
   manager (snd (clearExpiredRateLimits now st)) = map (clearEntry now) (manager st)"
  using clearLoop_append [of "[]" "manager st" now 0]
  by (cases "clearLoop now (map snd (manager st)) (manager st) 0")
     (simp add: clearExpiredRateLimits_def store_ok_def getAll_def)

lemma clearExpiredRateLimits_other_fields:
  "strategy (snd (clearExpiredRateLimits now st)) = strategy st"
  "currentRoundRobinIndex (snd (clearExpiredRateLimits now st)) = currentRoundRobinIndex st"
  by (simp_all add: clearExpiredRateLimits_def split: prod.splits)

lemma manager_getNextAccount:
  "manager (snd (getNextAccount now st)) = manager (snd (clearExpiredRateLimits now st))"
  by (simp add: getNextAccount_def Let_def selectRoundRobin_def split: RotationStrategy.splits)

lemma getAccount_map_clearEntry:
  "getAccount (map (clearEntry now) m) e =
     map_option (\<lambda>a. if rateLimitExpired now a then clearedUpdate a else a) (getAccount m e)"
  by (induction m) (auto simp: clearEntry_def)

lemma store_ok_map_clearEntry: "store_ok m \<Longrightarrow> store_ok (map (clearEntry now) m)"
  by (auto simp: store_ok_def list_all_iff clearEntry_def comp_def)

subsection \<open>The selectors\<close>

text \<open>A stable sort puts first the earliest element with the least key.\<close>

lemma sort_key_nonempty: "xs \<noteq> [] \<Longrightarrow> sort_key f xs \<noteq> []"
  by (metis length_sort length_0_conv)

lemma hd_sort_key_first_min:
  "xs \<noteq> [] \<Longrightarrow>
   \<exists>a rest pre post. sort_key f xs = a # rest \<and> xs = pre @ a # post \<and>
      (\<forall>b\<in>set pre. f a < f b) \<and> (\<forall>b\<in>set post. f a \<le> f b)"
proof (induction xs)
  case Nil
  then show ?case by simp
next
  case (Cons x xs)
  show ?case
  proof (cases "xs = []")
    case True
    have "sort_key f (x # xs) = x # [] \<and> x # xs = [] @ x # [] \<and>
        (\<forall>b\<in>set []. f x < f b) \<and> (\<forall>b\<in>set []. f x \<le> f b)"
      using True by simp
    then show ?thesis by blast
  next
    case False
    from Cons.IH [OF False] obtain a rest pre post where
      s: "sort_key f xs = a # rest" and xs: "xs = pre @ a # post"
      and pre: "\<forall>b\<in>set pre. f a < f b" and post: "\<forall>b\<in>set post. f a \<le> f b"
      by blast
    show ?thesis
    proof (cases "f x \<le> f a")
      case True
      have "sort_key f (x # xs) = x # a # rest" using s True by simp
      moreover have "x # xs = [] @ x # xs" by simp
      moreover have "\<forall>b\<in>set xs. f x \<le> f b"
        using True pre post xs by fastforce
      ultimately show ?thesis by (metis empty_iff list.set(1))
    next
      case False
      have "sort_key f (x # xs) = a # insort_key f x rest" using s False by simp
      moreover have "x # xs = (x # pre) @ a # post" using xs by simp
      moreover have "\<forall>b\<in>set (x # pre). f a < f b" using False pre by auto
      ultimately show ?thesis using post by blast
    qed
  qed
qed

lemma sort_key_Cons_in: "sort_key f xs = a # rest \<Longrightarrow> a \<in> set xs"
proof -
  assume "sort_key f xs = a # rest"
  then have "a \<in> set (sort_key f xs)" by simp
  then show ?thesis by simp
qed

lemma selectPriority_in: "selectPriority xs = Some a \<Longrightarrow> a \<in> set xs"
  by (auto simp: selectPriority_def split: list.splits dest: sort_key_Cons_in)

lemma selectLeastUsed_in: "selectLeastUsed xs = Some a \<Longrightarrow> a \<in> set xs"
  by (auto simp: selectLeastUsed_def split: list.splits dest: sort_key_Cons_in)

lemma selectFailover_in: "selectFailover xs = Some a \<Longrightarrow> a \<in> set xs"
  by (auto simp: selectFailover_def split: list.splits)

lemma selectRoundRobin_in: "fst (selectRoundRobin xs st) = Some a \<Longrightarrow> a \<in> set xs"
  by (auto simp: selectRoundRobin_def Let_def split: if_splits)

lemma selectPriority_None: "selectPriority xs = None \<longleftrightarrow> xs = []"
  using sort_key_nonempty [of xs "\<lambda>a. - effPriority a"]
  by (auto simp: selectPriority_def split: list.splits)

lemma selectLeastUsed_None: "selectLeastUsed xs = None \<longleftrightarrow> xs = []"
  using sort_key_nonempty [of xs "\<lambda>a. orNat (requestCount a) 0"]
  by (auto simp: selectLeastUsed_def split: list.splits)

lemma selectFailover_None: "selectFailover xs = None \<longleftrightarrow> xs = []"
  by (auto simp: selectFailover_def split: list.splits)

lemma selectRoundRobin_None: "fst (selectRoundRobin xs st) = None \<longleftrightarrow> xs = []"
  by (auto simp: selectRoundRobin_def Let_def)

lemma getNextAccount_in_available:
  assumes "fst (getNextAccount now st) = Some a"
  shows "a \<in> set (available (manager (snd (clearExpiredRateLimits now st))))"
proof (cases "strategy (snd (clearExpiredRateLimits now st))")
  case RoundRobin
  with assms show ?thesis
    by (auto simp: getNextAccount_def Let_def split: if_splits dest: selectRoundRobin_in)
next
  case Priority
  with assms show ?thesis
    by (auto simp: getNextAccount_def Let_def split: if_splits dest: selectPriority_in)
next
  case LeastUsed
  with assms show ?thesis
    by (auto simp: getNextAccount_def Let_def split: if_splits dest: selectLeastUsed_in)
next
  case Failover
  with assms show ?thesis
    by (auto simp: getNextAccount_def Let_def split: if_splits dest: selectFailover_in)
qed

lemma getNextAccount_None_iff:
  "fst (getNextAccount now st) = None \<longleftrightarrow>
   available (manager (snd (clearExpiredRateLimits now st))) = []"
  by (cases "strategy (snd (clearExpiredRateLimits now st))")
     (simp_all add: getNextAccount_def Let_def selectPriority_None selectLeastUsed_None
        selectFailover_None selectRoundRobin_None)

text \<open>Definitions unfolded to run the model on a concrete store.\<close>

lemmas eval_defs = getNextAccount_def clearExpiredRateLimits_def available_def getAll_def
  rateLimitExpired_def truthyBool_def truthyNum_def clearedUpdate_def rotatorOf_def freshAccount_def
  selectRoundRobin_def selectPriority_def selectLeastUsed_def selectFailover_def effPriority_def
  orInt_def orNat_def Let_def store_ok_def

subsection \<open>What selection writes\<close>

text \<open>
  C3 (as the code has it). \<^verbatim>\<open>getNextAccount\<close> begins with
  \<^verbatim>\<open>clearExpiredRateLimits\<close>, which writes to the store: under every strategy,
  on a well-formed store, each account whose rate limit has expired (flag set, a
  non-zero \<open>rateLimitedUntil\<close> at or before now) gets \<open>isRateLimited = false\<close>,
  \<open>rateLimitedUntil\<close> cleared and \<open>failureCount = 0\<close>; every other account, and
  every other field (\<open>lastUsed\<close>, \<open>requestCount\<close>, the tokens), is as before.
  When no rate limit has expired the store is unchanged.
\<close>

theorem getNextAccount_store_effect:
  assumes "store_ok (manager st)"
  shows "manager (snd (getNextAccount now st)) =
           map (\<lambda>(k, a). (k, if rateLimitExpired now a
                               then a\<lparr>isRateLimited := Some False, rateLimitedUntil := None,
                                      failureCount := Some 0\<rparr>
                               else a)) (manager st) \<and>
         (list_all (\<lambda>a. \<not> rateLimitExpired now a) (getAll (manager st)) \<longrightarrow>
            manager (snd (getNextAccount now st)) = manager st)"
proof -
  have eq: "clearEntry now = (\<lambda>(k, a). (k, if rateLimitExpired now a
                               then a\<lparr>isRateLimited := Some False, rateLimitedUntil := None,
                                      failureCount := Some 0\<rparr>
                               else a))"
    by (auto simp: clearEntry_def clearedUpdate_def fun_eq_iff)
  have m: "manager (snd (getNextAccount now st)) = map (clearEntry now) (manager st)"
    using assms by (simp add: manager_getNextAccount manager_clearExpiredRateLimits)
  have "map (clearEntry now) m = m" if "list_all (\<lambda>a. \<not> rateLimitExpired now a) (getAll m)" for m
    using that by (induction m) (auto simp: clearEntry_def getAll_def)
  with m show ?thesis by (simp add: eq [symmetric])
qed

theorem getNextAccount_store_effect_witness:
  "store_ok (manager (rotatorOf [(freshAccount ''a'')\<lparr>isRateLimited := Some True,
        rateLimitedUntil := Some 500, failureCount := Some 3\<rparr>, freshAccount ''b''] RoundRobin)) \<and>
   manager (snd (getNextAccount 1000 (rotatorOf [(freshAccount ''a'')\<lparr>isRateLimited := Some True,
        rateLimitedUntil := Some 500, failureCount := Some 3\<rparr>, freshAccount ''b''] RoundRobin))) =
     [(''a'', freshAccount ''a''), (''b'', freshAccount ''b'')] \<and>
   manager (snd (getNextAccount 1000 (rotatorOf [freshAccount ''a'', freshAccount ''b''] RoundRobin))) =
     manager (rotatorOf [freshAccount ''a'', freshAccount ''b''] RoundRobin)"
proof -
  have ok1: "store_ok (manager (rotatorOf [(freshAccount ''a'')\<lparr>isRateLimited := Some True,
        rateLimitedUntil := Some 500, failureCount := Some 3\<rparr>, freshAccount ''b''] RoundRobin))"
    by (simp add: store_ok_def rotatorOf_def freshAccount_def)
  have ok2: "store_ok (manager (rotatorOf [freshAccount ''a'', freshAccount ''b''] RoundRobin))"
    by (simp add: store_ok_def rotatorOf_def freshAccount_def)
  show ?thesis
    using ok1 getNextAccount_store_effect [OF ok1, of 1000] getNextAccount_store_effect [OF ok2, of 1000]
    by (simp add: rotatorOf_def freshAccount_def rateLimitExpired_def truthyBool_def truthyNum_def getAll_def)
qed

text \<open>
  C3 as stated fails: selecting from a store whose only account has an expired rate
  limit rewrites that account (flag, expiry and failure count), so the store after
  the call differs from the store before it.
\<close>

theorem getNextAccount_store_effect_counterexample:
  "getAccount (manager (rotatorOf [(freshAccount ''a'')\<lparr>isRateLimited := Some True,
        rateLimitedUntil := Some 500, failureCount := Some 3\<rparr>] Priority)) ''a'' =
     Some ((freshAccount ''a'')\<lparr>isRateLimited := Some True, rateLimitedUntil := Some 500,
        failureCount := Some 3\<rparr>) \<and>
   getAccount (manager (snd (getNextAccount 1000 (rotatorOf [(freshAccount ''a'')\<lparr>isRateLimited := Some True,
        rateLimitedUntil := Some 500, failureCount := Some 3\<rparr>] Priority)))) ''a'' =
     Some ((freshAccount ''a'')\<lparr>isRateLimited := Some False, rateLimitedUntil := None,
        failureCount := Some 0\<rparr>) \<and>
   manager (snd (getNextAccount 1000 (rotatorOf [(freshAccount ''a'')\<lparr>isRateLimited := Some True,
        rateLimitedUntil := Some 500, failureCount := Some 3\<rparr>] Priority))) \<noteq>
     manager (rotatorOf [(freshAccount ''a'')\<lparr>isRateLimited := Some True,
        rateLimitedUntil := Some 500, failureCount := Some 3\<rparr>] Priority)"
  by (simp add: eval_defs)

subsection \<open>Expired rate limits\<close>

text \<open>
  C7 (as the code has it). On a well-formed store, an account with
  \<open>isRateLimited = true\<close> and a non-zero \<open>rateLimitedUntil\<close> at or before now is
  cleared by the first step of \<^verbatim>\<open>getNextAccount\<close> (flag false, expiry removed,
  failure count 0), is then among the candidates that pass the filter, so that the
  call returns an account, and is stored cleared after the call.
\<close>

theorem expired_limit_cleared:
  assumes "store_ok (manager st)" and "getAccount (manager st) e = Some a"
    and "isRateLimited a = Some True" and "rateLimitedUntil a = Some t" and "t \<noteq> 0" and "t \<le> now"
  shows "getAccount (manager (snd (clearExpiredRateLimits now st))) e =
           Some (a\<lparr>isRateLimited := Some False, rateLimitedUntil := None, failureCount := Some 0\<rparr>) \<and>
         a\<lparr>isRateLimited := Some False, rateLimitedUntil := None, failureCount := Some 0\<rparr>
           \<in> set (available (manager (snd (clearExpiredRateLimits now st)))) \<and>
         fst (getNextAccount now st) \<noteq> None \<and>
         getAccount (manager (snd (getNextAccount now st))) e =
           Some (a\<lparr>isRateLimited := Some False, rateLimitedUntil := None, failureCount := Some 0\<rparr>)"
proof -
  let ?m = "manager (snd (clearExpiredRateLimits now st))"
  let ?a = "a\<lparr>isRateLimited := Some False, rateLimitedUntil := None, failureCount := Some 0\<rparr>"
  have ex: "rateLimitExpired now a"
    using assms(3-6) by (simp add: rateLimitExpired_def truthyBool_def truthyNum_def)
  have m: "?m = map (clearEntry now) (manager st)"
    using assms(1) by (rule manager_clearExpiredRateLimits)
  have l: "getAccount ?m e = Some ?a"
    using assms(2) ex by (simp add: m getAccount_map_clearEntry clearedUpdate_def)
  then have "(e, ?a) \<in> set ?m" by (rule getAccount_in_set)
  then have "?a \<in> set (getAll ?m)" by (force simp: getAll_def)
  then have av: "?a \<in> set (available ?m)"
    by (simp add: available_def truthyBool_def)
  then have "available ?m \<noteq> []" by auto
  then have "fst (getNextAccount now st) \<noteq> None"
    by (simp add: getNextAccount_None_iff)
  with l av show ?thesis by (simp add: manager_getNextAccount)
qed

theorem expired_limit_cleared_witness:
  "fst (getNextAccount 1000 (rotatorOf [(freshAccount ''a'')\<lparr>isRateLimited := Some True,
        rateLimitedUntil := Some 500, failureCount := Some 3\<rparr>] Failover)) \<noteq> None \<and>
   getAccount (manager (snd (getNextAccount 1000 (rotatorOf [(freshAccount ''a'')\<lparr>isRateLimited := Some True,
        rateLimitedUntil := Some 500, failureCount := Some 3\<rparr>] Failover)))) ''a'' =
     Some (freshAccount ''a'')"
proof -
  let ?a = "(freshAccount ''a'')\<lparr>isRateLimited := Some True, rateLimitedUntil := Some 500,
      failureCount := Some 3\<rparr>"
  let ?st = "rotatorOf [?a] Failover"
  have ok: "store_ok (manager ?st)"
    by (simp add: store_ok_def rotatorOf_def freshAccount_def)
  have g: "getAccount (manager ?st) ''a'' = Some ?a"
    by (simp add: rotatorOf_def freshAccount_def)
  have "isRateLimited ?a = Some True" "rateLimitedUntil ?a = Some 500" "(500::int) \<noteq> 0" "(500::int) \<le> 1000"
    by simp_all
  from expired_limit_cleared [OF ok g this]
  show ?thesis by (simp add: freshAccount_def)
qed

text \<open>
  C7 as stated fails for the timestamp 0: the guard
  \<^verbatim>\<open>account.rateLimitedUntil && account.rateLimitedUntil <= now\<close> reads 0 as
  absent, so an account rate limited until time 0 is not cleared at time 1000; the
  sole account stays excluded and the selection returns nothing.
\<close>

theorem expired_limit_cleared_counterexample:
  "getAccount (manager (rotatorOf [(freshAccount ''a'')\<lparr>isRateLimited := Some True,
        rateLimitedUntil := Some 0, failureCount := Some 3\<rparr>] Failover)) ''a'' =
     Some ((freshAccount ''a'')\<lparr>isRateLimited := Some True, rateLimitedUntil := Some 0,
        failureCount := Some 3\<rparr>) \<and>
   (0::int) \<le> 1000 \<and>
   fst (getNextAccount 1000 (rotatorOf [(freshAccount ''a'')\<lparr>isRateLimited := Some True,
        rateLimitedUntil := Some 0, failureCount := Some 3\<rparr>] Failover)) = None \<and>
   getAccount (manager (snd (getNextAccount 1000 (rotatorOf [(freshAccount ''a'')\<lparr>isRateLimited := Some True,
        rateLimitedUntil := Some 0, failureCount := Some 3\<rparr>] Failover)))) ''a'' =
     Some ((freshAccount ''a'')\<lparr>isRateLimited := Some True, rateLimitedUntil := Some 0,
        failureCount := Some 3\<rparr>)"
  by (simp add: eval_defs)

subsection \<open>The priority strategy\<close>

text \<open>
  C6 (as the code has it). Under the priority strategy \<^verbatim>\<open>getNextAccount\<close>
  returns nothing when no account is available, and otherwise the first available
  account, in store order, whose effective priority \<^verbatim>\<open>priority || 1\<close> is
  maximal: every available account before it has a strictly smaller effective
  priority and every one after it has one that is not greater. Ties are decided by
  store (insertion) order alone.
\<close>

theorem selectPriority_first_maximal:
  assumes "strategy st = Priority"
  shows "(available (manager (snd (clearExpiredRateLimits now st))) = [] \<longrightarrow>
            fst (getNextAccount now st) = None) \<and>
         (available (manager (snd (clearExpiredRateLimits now st))) \<noteq> [] \<longrightarrow>
            (\<exists>a pre post. fst (getNextAccount now st) = Some a \<and>
               available (manager (snd (clearExpiredRateLimits now st))) = pre @ a # post \<and>
               (\<forall>b\<in>set pre. effPriority b < effPriority a) \<and>
               (\<forall>b\<in>set post. effPriority b \<le> effPriority a)))"
proof (intro conjI impI)
  assume "available (manager (snd (clearExpiredRateLimits now st))) = []"
  then show "fst (getNextAccount now st) = None"
    by (simp add: getNextAccount_None_iff)
next
  let ?av = "available (manager (snd (clearExpiredRateLimits now st)))"
  assume ne: "?av \<noteq> []"
  from hd_sort_key_first_min [OF ne, of "\<lambda>a. - effPriority a"]
  obtain a rest pre post where
    s: "sort_key (\<lambda>a. - effPriority a) ?av = a # rest" and av: "?av = pre @ a # post"
    and pre: "\<forall>b\<in>set pre. - effPriority a < - effPriority b"
    and post: "\<forall>b\<in>set post. - effPriority a \<le> - effPriority b"
    by blast
  have "fst (getNextAccount now st) = Some a"
    using assms ne s
    by (simp add: getNextAccount_def Let_def clearExpiredRateLimits_other_fields selectPriority_def)
  with av pre post
  show "\<exists>a pre post. fst (getNextAccount now st) = Some a \<and> ?av = pre @ a # post \<and>
          (\<forall>b\<in>set pre. effPriority b < effPriority a) \<and>
          (\<forall>b\<in>set post. effPriority b \<le> effPriority a)"
    by auto
qed

theorem selectPriority_first_maximal_witness:
  "strategy (rotatorOf [(freshAccount ''c'')\<lparr>priority := Some 2\<rparr>,
        (freshAccount ''b'')\<lparr>priority := Some 5, lastUsed := Some 200\<rparr>,
        (freshAccount ''a'')\<lparr>priority := Some 5, lastUsed := Some 100\<rparr>] Priority) = Priority \<and>
   (\<exists>a pre post.
      fst (getNextAccount 1000 (rotatorOf [(freshAccount ''c'')\<lparr>priority := Some 2\<rparr>,
        (freshAccount ''b'')\<lparr>priority := Some 5, lastUsed := Some 200\<rparr>,
        (freshAccount ''a'')\<lparr>priority := Some 5, lastUsed := Some 100\<rparr>] Priority)) = Some a \<and>
      available (manager (snd (clearExpiredRateLimits 1000 (rotatorOf [(freshAccount ''c'')\<lparr>priority := Some 2\<rparr>,
        (freshAccount ''b'')\<lparr>priority := Some 5, lastUsed := Some 200\<rparr>,
        (freshAccount ''a'')\<lparr>priority := Some 5, lastUsed := Some 100\<rparr>] Priority)))) = pre @ a # post \<and>
      (\<forall>b\<in>set pre. effPriority b < effPriority a) \<and>
      (\<forall>b\<in>set post. effPriority b \<le> effPriority a))"
proof -
  let ?st = "rotatorOf [(freshAccount ''c'')\<lparr>priority := Some 2\<rparr>,
        (freshAccount ''b'')\<lparr>priority := Some 5, lastUsed := Some 200\<rparr>,
        (freshAccount ''a'')\<lparr>priority := Some 5, lastUsed := Some 100\<rparr>] Priority"
  have s: "strategy ?st = Priority" by (simp add: rotatorOf_def)
  have ne: "available (manager (snd (clearExpiredRateLimits 1000 ?st))) \<noteq> []"
    by (simp add: eval_defs)
  from selectPriority_first_maximal [OF s, of 1000] ne s show ?thesis by blast
qed

text \<open>
  C6 as stated fails on the tie-break: of two available accounts with priority 5,
  the one stored first is returned although the other was used earlier (100 before
  200) and has the smaller email.
\<close>

theorem selectPriority_tie_counterexample:
  "available (manager (snd (clearExpiredRateLimits 1000 (rotatorOf
       [(freshAccount ''b'')\<lparr>priority := Some 5, lastUsed := Some 200\<rparr>,
        (freshAccount ''a'')\<lparr>priority := Some 5, lastUsed := Some 100\<rparr>] Priority)))) =
     [(freshAccount ''b'')\<lparr>priority := Some 5, lastUsed := Some 200\<rparr>,
      (freshAccount ''a'')\<lparr>priority := Some 5, lastUsed := Some 100\<rparr>] \<and>
   fst (getNextAccount 1000 (rotatorOf
       [(freshAccount ''b'')\<lparr>priority := Some 5, lastUsed := Some 200\<rparr>,
        (freshAccount ''a'')\<lparr>priority := Some 5, lastUsed := Some 100\<rparr>] Priority)) =
     Some ((freshAccount ''b'')\<lparr>priority := Some 5, lastUsed := Some 200\<rparr>) \<and>
   fst (getNextAccount 1000 (rotatorOf
       [(freshAccount ''b'')\<lparr>priority := Some 5, lastUsed := Some 200\<rparr>,
        (freshAccount ''a'')\<lparr>priority := Some 5, lastUsed := Some 100\<rparr>] Priority)) \<noteq>
     Some ((freshAccount ''a'')\<lparr>priority := Some 5, lastUsed := Some 100\<rparr>)"
  by (simp add: eval_defs)

section \<open>Status 429\<close>

lemma email_failedUpdate [simp]: "email (failedUpdate rl cd now a) = email a"
  by (simp add: failedUpdate_def)

lemma rateLimitExpired_limited: "rateLimitExpired now a \<Longrightarrow> truthyBool (isRateLimited a)"
  by (simp add: rateLimitExpired_def)

lemma available_iff:
  "store_ok m \<Longrightarrow>
   c \<in> set (available m) \<longleftrightarrow> getAccount m (email c) = Some c \<and> \<not> truthyBool (isRateLimited c)"
proof -
  assume ok: "store_ok m"
  have "c \<in> set (getAll m) \<longleftrightarrow> getAccount m (email c) = Some c"
  proof
    assume "c \<in> set (getAll m)"
    with ok show "getAccount m (email c) = Some c" by (rule getAll_lookup)
  next
    assume "getAccount m (email c) = Some c"
    then have "(email c, c) \<in> set m" by (rule getAccount_in_set)
    then show "c \<in> set (getAll m)" by (force simp: getAll_def)
  qed
  then show ?thesis by (simp add: available_def)
qed

lemma handle429_returns:
  "getAccount (manager st) e = Some a \<Longrightarrow> dateInRange (clock 0 + orInt r RATE_LIMIT_COOLDOWN_MS) \<Longrightarrow>
   handle429 e r clock st =
     (Inr (fst (getNextAccount (clock 1)
             (snd (reportFailure e True (orInt r RATE_LIMIT_COOLDOWN_MS) (clock 0) st)))),
      snd (getNextAccount (clock 1)
             (snd (reportFailure e True (orInt r RATE_LIMIT_COOLDOWN_MS) (clock 0) st))))"
  by (simp add: handle429_def Let_def reportFailure_returns andThen_def split: prod.splits)

lemma handleResponse_429:
  "handleResponse 429 e r clock st =
     andThen (handle429 e r clock st)
       (\<lambda>newAccount st1. case newAccount of
          Some a \<Rightarrow> (Inr \<lparr>action = Switch, newCredentials = Some a, delay = None\<rparr>, st1)
        | None \<Rightarrow> (Inr \<lparr>action = Fail, newCredentials = None, delay = None\<rparr>, st1))"
  by (simp add: handleResponse_def)

text \<open>
  C5 (as the code has it). For an account in a well-formed store and a cooldown
  (\<^verbatim>\<open>retryAfterMs || 60000\<close>) whose end \<open>now + cooldown\<close> is a date that can be
  rendered and has not yet passed when the replacement is selected, handling 429
  leaves that account with \<open>isRateLimited = true\<close> and
  \<open>rateLimitedUntil = now + cooldown\<close>. The action is switch, carrying an account
  with a different email, exactly when some other account is not rate limited or has
  an expired rate limit; otherwise (in particular when the failing account is the
  only one) the action is fail with no account.
\<close>

theorem handle429_switch:
  assumes ok: "store_ok (manager st)" and known: "getAccount (manager st) e = Some a"
    and rng: "dateInRange (clock 0 + orInt retryAfterMs RATE_LIMIT_COOLDOWN_MS)"
    and live: "clock 1 < clock 0 + orInt retryAfterMs RATE_LIMIT_COOLDOWN_MS"
  shows "(\<exists>a'. getAccount (manager (snd (handleResponse 429 e retryAfterMs clock st))) e = Some a' \<and>
            isRateLimited a' = Some True \<and>
            rateLimitedUntil a' = Some (clock 0 + orInt retryAfterMs RATE_LIMIT_COOLDOWN_MS)) \<and>
         ((\<exists>k b. k \<noteq> e \<and> getAccount (manager st) k = Some b \<and>
                 (\<not> truthyBool (isRateLimited b) \<or> rateLimitExpired (clock 1) b)) \<longrightarrow>
            (\<exists>c. fst (handleResponse 429 e retryAfterMs clock st) =
                    Inr \<lparr>action = Switch, newCredentials = Some c, delay = None\<rparr> \<and> email c \<noteq> e)) \<and>
         (\<not> (\<exists>k b. k \<noteq> e \<and> getAccount (manager st) k = Some b \<and>
                 (\<not> truthyBool (isRateLimited b) \<or> rateLimitExpired (clock 1) b)) \<longrightarrow>
            fst (handleResponse 429 e retryAfterMs clock st) =
              Inr \<lparr>action = Fail, newCredentials = None, delay = None\<rparr>)"
proof -
  define cd where "cd = orInt retryAfterMs RATE_LIMIT_COOLDOWN_MS"
  define st1 where "st1 = snd (reportFailure e True cd (clock 0) st)"
  define a1 where "a1 = failedUpdate True cd (clock 0) a"
  define m2 where "m2 = manager (snd (clearExpiredRateLimits (clock 1) st1))"
  define F where "F = (\<lambda>x. if rateLimitExpired (clock 1) x then clearedUpdate x else x)"
  have h429: "handle429 e retryAfterMs clock st =
      (Inr (fst (getNextAccount (clock 1) st1)), snd (getNextAccount (clock 1) st1))"
    using handle429_returns [where clock = clock, OF known rng] by (simp add: st1_def cd_def)
  have m1: "manager st1 = updateAccount e (failedUpdate True cd (clock 0)) (manager st)"
    using rng by (simp add: st1_def reportFailure_returns [OF known] cd_def)
  have ok1: "store_ok (manager st1)"
    unfolding m1 by (rule store_ok_updateAccount [OF ok]) simp
  have m2eq: "m2 = map (clearEntry (clock 1)) (manager st1)"
    unfolding m2_def using ok1 by (rule manager_clearExpiredRateLimits)
  have ok2: "store_ok m2"
    unfolding m2eq using ok1 by (rule store_ok_map_clearEntry)
  have res: "fst (handleResponse 429 e retryAfterMs clock st) =
      Inr (case fst (getNextAccount (clock 1) st1) of
         Some c \<Rightarrow> \<lparr>action = Switch, newCredentials = Some c, delay = None\<rparr>
       | None \<Rightarrow> \<lparr>action = Fail, newCredentials = None, delay = None\<rparr>)"
    by (simp add: handleResponse_429 h429 andThen_def split: option.splits)
  have final: "manager (snd (handleResponse 429 e retryAfterMs clock st)) = m2"
    by (simp add: handleResponse_429 h429 andThen_def m2_def manager_getNextAccount [symmetric]
        split: option.splits)
  have a1_lim: "isRateLimited a1 = Some True" "rateLimitedUntil a1 = Some (clock 0 + cd)"
    by (simp_all add: a1_def failedUpdate_def)
  have a1_live: "\<not> rateLimitExpired (clock 1) a1"
    using live by (simp add: rateLimitExpired_def a1_lim cd_def)
  have look_e: "getAccount m2 e = Some a1"
    using a1_live
    by (simp add: m2eq getAccount_map_clearEntry m1 getAccount_updateAccount_same known a1_def)
  have look_k: "getAccount m2 k = map_option F (getAccount (manager st) k)" if "k \<noteq> e" for k
    using that by (simp add: m2eq getAccount_map_clearEntry m1 getAccount_updateAccount_other F_def)
  have F_lim: "truthyBool (isRateLimited (F b)) \<longleftrightarrow>
        \<not> (\<not> truthyBool (isRateLimited b) \<or> rateLimitExpired (clock 1) b)" for b
    by (auto simp: F_def clearedUpdate_def truthyBool_def dest: rateLimitExpired_limited)
  have email_F: "email (F b) = email b" for b by (simp add: F_def)
  have not_e: "email c \<noteq> e" if "c \<in> set (available m2)" for c
  proof
    assume "email c = e"
    with that ok2 look_e have "c = a1" by (simp add: available_iff)
    with that ok2 a1_lim show False by (simp add: available_iff truthyBool_def)
  qed
  have marked: "\<exists>a'. getAccount (manager (snd (handleResponse 429 e retryAfterMs clock st))) e = Some a' \<and>
            isRateLimited a' = Some True \<and>
            rateLimitedUntil a' = Some (clock 0 + orInt retryAfterMs RATE_LIMIT_COOLDOWN_MS)"
    using look_e a1_lim by (simp add: final cd_def)
  have switch: "\<exists>c. fst (handleResponse 429 e retryAfterMs clock st) =
                    Inr \<lparr>action = Switch, newCredentials = Some c, delay = None\<rparr> \<and> email c \<noteq> e"
    if "\<exists>k b. k \<noteq> e \<and> getAccount (manager st) k = Some b \<and>
                 (\<not> truthyBool (isRateLimited b) \<or> rateLimitExpired (clock 1) b)"
  proof -
    from that obtain k b where kb: "k \<noteq> e" "getAccount (manager st) k = Some b"
      "\<not> truthyBool (isRateLimited b) \<or> rateLimitExpired (clock 1) b" by blast
    have kb_email: "email b = k"
      using ok kb(2) by (auto dest: getAccount_in_set store_ok_email)
    have "getAccount m2 (email (F b)) = Some (F b)"
      using kb by (simp add: email_F kb_email look_k)
    then have "F b \<in> set (available m2)"
      using kb(3) ok2 by (simp add: available_iff F_lim)
    then have "available m2 \<noteq> []" by auto
    then have "fst (getNextAccount (clock 1) st1) \<noteq> None"
      by (simp add: getNextAccount_None_iff m2_def)
    then obtain c where c: "fst (getNextAccount (clock 1) st1) = Some c"
      by (cases "fst (getNextAccount (clock 1) st1)") auto
    then have "c \<in> set (available m2)"
      unfolding m2_def by (rule getNextAccount_in_available)
    then have "email c \<noteq> e" by (rule not_e)
    with c show ?thesis by (simp add: res)
  qed
  have fail: "fst (handleResponse 429 e retryAfterMs clock st) =
              Inr \<lparr>action = Fail, newCredentials = None, delay = None\<rparr>"
    if none: "\<not> (\<exists>k b. k \<noteq> e \<and> getAccount (manager st) k = Some b \<and>
                 (\<not> truthyBool (isRateLimited b) \<or> rateLimitExpired (clock 1) b))"
  proof -
    have "available m2 = []"
    proof (rule ccontr)
      assume "available m2 \<noteq> []"
      then obtain c where c: "c \<in> set (available m2)" by (cases "available m2") auto
      then have ne: "email c \<noteq> e" by (rule not_e)
      from c ok2 have l: "getAccount m2 (email c) = Some c" and free: "\<not> truthyBool (isRateLimited c)"
        by (simp_all add: available_iff)
      from l ne obtain b where b: "getAccount (manager st) (email c) = Some b" "c = F b"
        by (auto simp: look_k)
      with free have "\<not> truthyBool (isRateLimited b) \<or> rateLimitExpired (clock 1) b"
        by (simp add: F_lim)
      with none ne b(1) show False by blast
    qed
    then have "fst (getNextAccount (clock 1) st1) = None"
      by (simp add: getNextAccount_None_iff m2_def)
    then show ?thesis by (simp add: res)
  qed
  from marked switch fail show ?thesis by blast
qed

theorem handle429_switch_witness:
  "(\<exists>a'. getAccount (manager (snd (handleResponse 429 ''a'' (Some 5000) (\<lambda>n. 1000 + 20 * int n)
              (rotatorOf [freshAccount ''a'', freshAccount ''b''] RoundRobin)))) ''a'' = Some a' \<and>
          isRateLimited a' = Some True \<and> rateLimitedUntil a' = Some 6000) \<and>
   (\<exists>c. fst (handleResponse 429 ''a'' (Some 5000) (\<lambda>n. 1000 + 20 * int n)
              (rotatorOf [freshAccount ''a'', freshAccount ''b''] RoundRobin)) =
           Inr \<lparr>action = Switch, newCredentials = Some c, delay = None\<rparr> \<and> email c \<noteq> ''a'') \<and>
   fst (handleResponse 429 ''a'' None (\<lambda>n. 1000 + 20 * int n) (rotatorOf [freshAccount ''a''] RoundRobin)) =
     Inr \<lparr>action = Fail, newCredentials = None, delay = None\<rparr>"
proof -
  let ?st2 = "rotatorOf [freshAccount ''a'', freshAccount ''b''] RoundRobin"
  let ?st1 = "rotatorOf [freshAccount ''a''] RoundRobin"
  let ?clock = "\<lambda>n. 1000 + 20 * int n"
  have ok2: "store_ok (manager ?st2)" and ok1: "store_ok (manager ?st1)"
    by (simp_all add: store_ok_def rotatorOf_def freshAccount_def)
  have k2: "getAccount (manager ?st2) ''a'' = Some (freshAccount ''a'')"
    and k1: "getAccount (manager ?st1) ''a'' = Some (freshAccount ''a'')"
    by (simp_all add: rotatorOf_def freshAccount_def)
  have r2: "dateInRange (?clock 0 + orInt (Some 5000) RATE_LIMIT_COOLDOWN_MS)"
    and r1: "dateInRange (?clock 0 + orInt None RATE_LIMIT_COOLDOWN_MS)"
    by (simp_all add: orInt_def RATE_LIMIT_COOLDOWN_MS_def dateInRange_def)
  have l2: "?clock 1 < ?clock 0 + orInt (Some 5000) RATE_LIMIT_COOLDOWN_MS"
    and l1: "?clock 1 < ?clock 0 + orInt None RATE_LIMIT_COOLDOWN_MS"
    by (simp_all add: orInt_def RATE_LIMIT_COOLDOWN_MS_def)
  have other: "\<exists>k b. k \<noteq> ''a'' \<and> getAccount (manager ?st2) k = Some b \<and>
                 (\<not> truthyBool (isRateLimited b) \<or> rateLimitExpired (?clock 1) b)"
    by (rule exI [of _ "''b''"], rule exI [of _ "freshAccount ''b''"])
       (simp add: rotatorOf_def freshAccount_def truthyBool_def)
  have alone: "\<not> (\<exists>k b. k \<noteq> ''a'' \<and> getAccount (manager ?st1) k = Some b \<and>
                 (\<not> truthyBool (isRateLimited b) \<or> rateLimitExpired (?clock 1) b))"
    by (simp add: rotatorOf_def freshAccount_def)
  from handle429_switch [where clock = "\<lambda>n. 1000 + 20 * int n", OF ok2 k2 r2 l2]
    handle429_switch [where clock = "\<lambda>n. 1000 + 20 * int n", OF ok1 k1 r1 l1] other alone
  show ?thesis by (simp add: orInt_def)
qed

text \<open>
  C5 as stated fails. With two accounts, of which the other one is rate limited until
  a later time, a 429 on the first yields fail, not a switch. With a cooldown of 1 ms
  and 2 ms between the report and the selection, the cooldown has passed when the
  replacement is selected: the sole account is cleared again and handed back as its
  own replacement. With a cooldown beyond the range of dates the report throws and
  the account is not rate limited at all.
\<close>

theorem handle429_switch_counterexample:
  "length (manager (rotatorOf [freshAccount ''a'',
       (freshAccount ''b'')\<lparr>isRateLimited := Some True, rateLimitedUntil := Some 900000\<rparr>] RoundRobin)) = 2 \<and>
   fst (handleResponse 429 ''a'' None (\<lambda>n. 1000) (rotatorOf [freshAccount ''a'',
       (freshAccount ''b'')\<lparr>isRateLimited := Some True, rateLimitedUntil := Some 900000\<rparr>] RoundRobin)) =
     Inr \<lparr>action = Fail, newCredentials = None, delay = None\<rparr> \<and>
   handleResponse 429 ''a'' (Some 1) (\<lambda>n. 1000 + 2 * int n) (rotatorOf [freshAccount ''a''] RoundRobin) =
     (Inr \<lparr>action = Switch, newCredentials = Some ((freshAccount ''a'')\<lparr>lastUsed := Some 1000\<rparr>),
            delay = None\<rparr>,
      rotatorOf [(freshAccount ''a'')\<lparr>lastUsed := Some 1000\<rparr>] RoundRobin) \<and>
   handleResponse 429 ''a'' (Some 10000000000000000) (\<lambda>n. 1000)
       (rotatorOf [freshAccount ''a'', freshAccount ''b''] RoundRobin) =
     (Inl RangeError, rotatorOf [freshAccount ''a'', freshAccount ''b''] RoundRobin)"
  by (simp add: handleResponse_def handle429_def reportFailure_def RATE_LIMIT_COOLDOWN_MS_def
      CIRCUIT_BREAKER_THRESHOLD_def andThen_def dateInRange_def eval_defs)

section \<open>The refresh sweep\<close>

lemma updateAccountTokens_lookup_other:
  "e' \<noteq> e \<Longrightarrow>
   getAccount (manager (snd (updateAccountTokens e tok ex now st))) e' = getAccount (manager st) e'"
  by (simp add: updateAccountTokens_def getAccount_updateAccount_other)

lemma refreshFailed_lookup_other:
  "e \<noteq> email x \<Longrightarrow>
   getAccount (manager (snd (refreshFailed x now st))) e = getAccount (manager st) e"
  using reportFailure_lookup_other [of e "email x" False RATE_LIMIT_COOLDOWN_MS now st]
  by (cases "reportFailure (email x) False RATE_LIMIT_COOLDOWN_MS now st")
     (auto simp: refreshFailed_def andThen_def split: sum.splits)

lemma refreshOne_lookup_other:
  "e \<noteq> email x \<Longrightarrow>
   getAccount (manager (snd (refreshOne rf now x st))) e = getAccount (manager st) e"
proof (cases "rf (refreshToken x)")
  case None
  assume "e \<noteq> email x"
  with None show ?thesis by (simp add: refreshOne_def refreshFailed_lookup_other)
next
  case (Some tokens)
  assume ne: "e \<noteq> email x"
  obtain r st1 where u: "updateAccountTokens (email x) (access tokens) (expires tokens) now st = (r, st1)"
    by (cases "updateAccountTokens (email x) (access tokens) (expires tokens) now st")
  from updateAccountTokens_lookup_other [OF ne, of "access tokens" "expires tokens" now st] u
  have l: "getAccount (manager st1) e = getAccount (manager st) e" by simp
  show ?thesis
    using Some u l ne by (cases r) (simp_all add: refreshOne_def refreshFailed_lookup_other)
qed

lemma refreshLoop_lookup_other:
  "\<forall>x\<in>set accounts. email x \<noteq> e \<Longrightarrow>
   getAccount (manager (refreshLoop rf now accounts st)) e = getAccount (manager st) e"
proof (induction accounts arbitrary: st)
  case Nil
  then show ?case by simp
next
  case (Cons x xs)
  then have ne: "e \<noteq> email x" and rest: "\<forall>x\<in>set xs. email x \<noteq> e" by auto
  obtain r st1 where o: "refreshOne rf now x st = (r, st1)"
    by (cases "refreshOne rf now x st")
  from refreshOne_lookup_other [OF ne, of rf now st] o
  have l: "getAccount (manager st1) e = getAccount (manager st) e" by simp
  show ?case
    using Cons.IH [OF rest, of st1] o l by (cases r) simp_all
qed

text \<open>
  C9 (as the code has it). The sweep selects exactly the stored accounts that are not
  rate limited, have a non-zero \<open>expiresAt\<close>, and satisfy
  \<open>expiresAt - now < thresholdMs\<close>. On a well-formed store, whatever the refresher
  answers, every account outside that selection is stored unchanged after the sweep.
\<close>

theorem refresh_sweep_frame:
  assumes "store_ok (manager st)"
  shows "set (getAccountsNeedingRefresh thresholdMs now st) =
           {a \<in> set (getAll (manager st)).
              \<not> truthyBool (isRateLimited a) \<and> expiresAt a \<noteq> 0 \<and> expiresAt a - now < thresholdMs} \<and>
         (\<forall>e a. getAccount (manager st) e = Some a \<and>
                 \<not> (\<not> truthyBool (isRateLimited a) \<and> expiresAt a \<noteq> 0 \<and>
                    expiresAt a - now < TOKEN_EXPIRY_THRESHOLD_MS) \<longrightarrow>
            getAccount (manager (refreshAllTokens refreshAccessToken now st)) e = Some a)"
proof (intro conjI allI impI)
  show "set (getAccountsNeedingRefresh thresholdMs now st) =
           {a \<in> set (getAll (manager st)).
              \<not> truthyBool (isRateLimited a) \<and> expiresAt a \<noteq> 0 \<and> expiresAt a - now < thresholdMs}"
    by (auto simp: getAccountsNeedingRefresh_def needsRefresh_def)
next
  fix e a
  assume h: "getAccount (manager st) e = Some a \<and>
                 \<not> (\<not> truthyBool (isRateLimited a) \<and> expiresAt a \<noteq> 0 \<and>
                    expiresAt a - now < TOKEN_EXPIRY_THRESHOLD_MS)"
  let ?sel = "getAccountsNeedingRefresh TOKEN_EXPIRY_THRESHOLD_MS now st"
  have "email x \<noteq> e" if "x \<in> set ?sel" for x
  proof
    assume "email x = e"
    moreover from that have "x \<in> set (getAll (manager st))" and nr: "needsRefresh TOKEN_EXPIRY_THRESHOLD_MS now x"
      by (simp_all add: getAccountsNeedingRefresh_def)
    ultimately have "getAccount (manager st) e = Some x"
      using assms getAll_lookup by blast
    with h have "x = a" by simp
    with h nr show False by (simp add: needsRefresh_def)
  qed
  then have "getAccount (manager (refreshLoop refreshAccessToken now ?sel st)) e = getAccount (manager st) e"
    by (intro refreshLoop_lookup_other) blast
  with h show "getAccount (manager (refreshAllTokens refreshAccessToken now st)) e = Some a"
    by (simp add: refreshAllTokens_def Let_def)
qed

text \<open>Definitions unfolded to run the sweep on a concrete store.\<close>

lemmas sweep_defs = refreshAllTokens_def refreshOne_def refreshFailed_def updateAccountTokens_def
  getAccountsNeedingRefresh_def needsRefresh_def reportFailure_def andThen_def dateInRange_def
  TOKEN_EXPIRY_THRESHOLD_MS_def RATE_LIMIT_COOLDOWN_MS_def CIRCUIT_BREAKER_THRESHOLD_def

theorem refresh_sweep_frame_witness:
  "set (getAccountsNeedingRefresh TOKEN_EXPIRY_THRESHOLD_MS 7000000
          (rotatorOf [freshAccount ''a'', (freshAccount ''b'')\<lparr>expiresAt := 9000000\<rparr>] RoundRobin)) =
     {freshAccount ''a''} \<and>
   getAccount (manager (refreshAllTokens (\<lambda>t. None) 7000000
          (rotatorOf [freshAccount ''a'', (freshAccount ''b'')\<lparr>expiresAt := 9000000\<rparr>] RoundRobin))) ''b'' =
     Some ((freshAccount ''b'')\<lparr>expiresAt := 9000000\<rparr>) \<and>
   getAccount (manager (refreshAllTokens (\<lambda>t. None) 7000000
          (rotatorOf [freshAccount ''a'', (freshAccount ''b'')\<lparr>expiresAt := 9000000\<rparr>] RoundRobin))) ''a'' =
     Some ((freshAccount ''a'')\<lparr>failureCount := Some 1, lastUsed := Some 7000000\<rparr>)"
proof -
  let ?b = "(freshAccount ''b'')\<lparr>expiresAt := 9000000\<rparr>"
  let ?st = "rotatorOf [freshAccount ''a'', ?b] RoundRobin"
  have ok: "store_ok (manager ?st)"
    by (simp add: store_ok_def rotatorOf_def freshAccount_def)
  note t = refresh_sweep_frame [OF ok, where now = 7000000 and refreshAccessToken = "\<lambda>t. None"
      and thresholdMs = TOKEN_EXPIRY_THRESHOLD_MS]
  have hb: "getAccount (manager ?st) ''b'' = Some ?b \<and>
        \<not> (\<not> truthyBool (isRateLimited ?b) \<and> expiresAt ?b \<noteq> 0 \<and>
           expiresAt ?b - 7000000 < TOKEN_EXPIRY_THRESHOLD_MS)"
    by (simp add: rotatorOf_def freshAccount_def TOKEN_EXPIRY_THRESHOLD_MS_def)
  from t hb have b: "getAccount (manager (refreshAllTokens (\<lambda>t. None) 7000000 ?st)) ''b'' = Some ?b"
    by blast
  have "{a \<in> set (getAll (manager ?st)). \<not> truthyBool (isRateLimited a) \<and> expiresAt a \<noteq> 0 \<and>
           expiresAt a - 7000000 < TOKEN_EXPIRY_THRESHOLD_MS} = {freshAccount ''a''}"
    by (auto simp: rotatorOf_def freshAccount_def getAll_def truthyBool_def TOKEN_EXPIRY_THRESHOLD_MS_def)
  with t have s: "set (getAccountsNeedingRefresh TOKEN_EXPIRY_THRESHOLD_MS 7000000 ?st) = {freshAccount ''a''}"
    by simp
  have a: "getAccount (manager (refreshAllTokens (\<lambda>t. None) 7000000 ?st)) ''a'' =
     Some ((freshAccount ''a'')\<lparr>failureCount := Some 1, lastUsed := Some 7000000\<rparr>)"
    by (simp add: sweep_defs eval_defs)
  from s b a show ?thesis by blast
qed

text \<open>
  C9 as stated fails for \<open>expiresAt = 0\<close>: the filter
  \<^verbatim>\<open>!a.isRateLimited && a.expiresAt && (a.expiresAt - now) < thresholdMs\<close> reads 0
  as false, so an account that is not rate limited and lies inside the window is not
  selected and the sweep does not refresh it.
\<close>

theorem refresh_sweep_counterexample:
  "\<not> truthyBool (isRateLimited ((freshAccount ''z'')\<lparr>expiresAt := 0\<rparr>)) \<and>
   expiresAt ((freshAccount ''z'')\<lparr>expiresAt := 0\<rparr>) - 1000 < TOKEN_EXPIRY_THRESHOLD_MS \<and>
   getAll (manager (rotatorOf [(freshAccount ''z'')\<lparr>expiresAt := 0\<rparr>] RoundRobin)) =
     [(freshAccount ''z'')\<lparr>expiresAt := 0\<rparr>] \<and>
   getAccountsNeedingRefresh TOKEN_EXPIRY_THRESHOLD_MS 1000
     (rotatorOf [(freshAccount ''z'')\<lparr>expiresAt := 0\<rparr>] RoundRobin) = [] \<and>
   refreshAllTokens (\<lambda>t. Some \<lparr>access = ''new'', expires = 9000000\<rparr>) 1000
     (rotatorOf [(freshAccount ''z'')\<lparr>expiresAt := 0\<rparr>] RoundRobin) =
     rotatorOf [(freshAccount ''z'')\<lparr>expiresAt := 0\<rparr>] RoundRobin"
  by (simp add: refreshAllTokens_def getAccountsNeedingRefresh_def needsRefresh_def
      TOKEN_EXPIRY_THRESHOLD_MS_def eval_defs)

section \<open>Unknown accounts\<close>

lemma reportSuccess_unknown:
  "getAccount (manager st) e = None \<Longrightarrow> reportSuccess e now st = st"
  by (simp add: reportSuccess_def)

lemma handle429_unknown:
  "getAccount (manager st) e = None \<Longrightarrow>
   handle429 e r clock st = (Inr (fst (getNextAccount (clock 1) st)), snd (getNextAccount (clock 1) st))"
  by (simp add: handle429_def reportFailure_unknown andThen_def split: prod.splits)

lemma handle401_unknown:
  "getAccount (manager st) e = None \<Longrightarrow>
   handle401 e clock st =
     (Inr (False, fst (getNextAccount (clock 0) st)), snd (getNextAccount (clock 0) st))"
  by (simp add: handle401_def split: prod.splits)

lemma handle403_unknown:
  "getAccount (manager st) e = None \<Longrightarrow> handle403 e clock st = getNextAccount (clock 1) st"
  by (simp add: handle403_def updateAccount_absent)

text \<open>
  C10 (as the code has it). No operation raises for an email that is not in the
  store. \<^verbatim>\<open>reportSuccess\<close> returns with the rotator unchanged and
  \<^verbatim>\<open>reportFailure\<close> returns false with the rotator unchanged. For every status
  other than 5xx the interceptor answers as for a known account: for 429, 401 and 403
  it selects a replacement (switch, or fail when none is available), and the rotator
  after the call is the one that this selection leaves; for 2xx and every
  unclassified status it answers continue with the rotator unchanged.
\<close>

theorem unknown_account_silent:
  assumes "getAccount (manager st) e = None" and "\<not> (500 \<le> status \<and> status < 600)"
  shows "reportSuccess e now st = st \<and>
         reportFailure e isRateLimit cooldownMs now st = (Inr False, st) \<and>
         snd (handleResponse status e retryAfterMs clock st) =
           (if status = 429 \<or> status = 403 then snd (getNextAccount (clock 1) st)
            else if status = 401 then snd (getNextAccount (clock 0) st)
            else st) \<and>
         fst (handleResponse status e retryAfterMs clock st) =
           Inr (if status = 429 \<or> status = 403
                then (case fst (getNextAccount (clock 1) st) of
                        Some c \<Rightarrow> \<lparr>action = Switch, newCredentials = Some c, delay = None\<rparr>
                      | None \<Rightarrow> \<lparr>action = Fail, newCredentials = None, delay = None\<rparr>)
                else if status = 401
                then (case fst (getNextAccount (clock 0) st) of
                        Some c \<Rightarrow> \<lparr>action = Switch, newCredentials = Some c, delay = None\<rparr>
                      | None \<Rightarrow> \<lparr>action = Fail, newCredentials = None, delay = None\<rparr>)
                else \<lparr>action = Continue, newCredentials = None, delay = None\<rparr>)"
proof -
  note u = reportSuccess_unknown [OF assms(1)] reportFailure_unknown [OF assms(1)]
    handle429_unknown [OF assms(1)] handle401_unknown [OF assms(1)] handle403_unknown [OF assms(1)]
  consider (s429) "status = 429" | (s401) "status = 401" | (s403) "status = 403"
    | (ok) "200 \<le> status" "status < 300"
    | (other) "\<not> (200 \<le> status \<and> status < 300)" "status \<noteq> 429" "status \<noteq> 401" "status \<noteq> 403"
    by blast
  then show ?thesis
  proof cases
    case s429
    then show ?thesis
      by (simp add: handleResponse_def u andThen_def split: prod.splits option.splits)
  next
    case s401
    then show ?thesis
      by (simp add: handleResponse_def u andThen_def split: prod.splits option.splits)
  next
    case s403
    then show ?thesis
      by (simp add: handleResponse_def u split: prod.splits option.splits)
  next
    case ok
    then show ?thesis
      by (simp add: handleResponse_def u)
  next
    case other
    have "handleResponse status e retryAfterMs clock st =
        andThen (reportFailure e False RATE_LIMIT_COOLDOWN_MS (clock 0) st)
          (\<lambda>_ st1. (Inr \<lparr>action = Continue, newCredentials = None, delay = None\<rparr>, st1))"
      unfolding handleResponse_def using other assms(2) by auto
    with other show ?thesis
      by (simp add: u andThen_def)
  qed
qed

theorem unknown_account_silent_witness:
  "getAccount (manager (rotatorOf [freshAccount ''a''] RoundRobin)) ''g'' = None \<and>
   reportSuccess ''g'' 1000 (rotatorOf [freshAccount ''a''] RoundRobin) = rotatorOf [freshAccount ''a''] RoundRobin \<and>
   reportFailure ''g'' True 60000 1000 (rotatorOf [freshAccount ''a''] RoundRobin) =
     (Inr False, rotatorOf [freshAccount ''a''] RoundRobin) \<and>
   handleResponse 404 ''g'' None (\<lambda>n. 1000) (rotatorOf [freshAccount ''a''] RoundRobin) =
     (Inr \<lparr>action = Continue, newCredentials = None, delay = None\<rparr>,
      rotatorOf [freshAccount ''a''] RoundRobin)"
proof -
  have h: "getAccount (manager (rotatorOf [freshAccount ''a''] RoundRobin)) ''g'' = None"
    by (simp add: rotatorOf_def freshAccount_def)
  have s: "\<not> (500 \<le> (404::int) \<and> (404::int) < 600)" by simp
  from unknown_account_silent [OF h s, where now = 1000 and isRateLimit = True
      and cooldownMs = 60000 and retryAfterMs = None and clock = "\<lambda>n. 1000"] h
  show ?thesis by (simp add: prod_eq_iff)
qed

text \<open>
  C10 as stated fails: for the unknown email \<open>g\<close> a 2xx status is answered with
  continue and \<^verbatim>\<open>reportFailure\<close> with false, as if the account existed, and a
  429 is answered with a switch while the selection it runs rewrites the stored
  account whose rate limit had expired, so the store is not left unchanged.
\<close>

theorem unknown_account_counterexample:
  "getAccount (manager (rotatorOf [(freshAccount ''a'')\<lparr>isRateLimited := Some True,
        rateLimitedUntil := Some 500, failureCount := Some 3\<rparr>] RoundRobin)) ''g'' = None \<and>
   handleResponse 200 ''g'' None (\<lambda>n. 1000) (rotatorOf [(freshAccount ''a'')\<lparr>isRateLimited := Some True,
        rateLimitedUntil := Some 500, failureCount := Some 3\<rparr>] RoundRobin) =
     (Inr \<lparr>action = Continue, newCredentials = None, delay = None\<rparr>,
      rotatorOf [(freshAccount ''a'')\<lparr>isRateLimited := Some True,
        rateLimitedUntil := Some 500, failureCount := Some 3\<rparr>] RoundRobin) \<and>
   reportFailure ''g'' False 60000 1000 (rotatorOf [(freshAccount ''a'')\<lparr>isRateLimited := Some True,
        rateLimitedUntil := Some 500, failureCount := Some 3\<rparr>] RoundRobin) =
     (Inr False, rotatorOf [(freshAccount ''a'')\<lparr>isRateLimited := Some True,
        rateLimitedUntil := Some 500, failureCount := Some 3\<rparr>] RoundRobin) \<and>
   fst (handleResponse 429 ''g'' None (\<lambda>n. 1000) (rotatorOf [(freshAccount ''a'')\<lparr>isRateLimited := Some True,
        rateLimitedUntil := Some 500, failureCount := Some 3\<rparr>] RoundRobin)) =
     Inr \<lparr>action = Switch, newCredentials = Some (freshAccount ''a''), delay = None\<rparr> \<and>
   manager (snd (handleResponse 429 ''g'' None (\<lambda>n. 1000) (rotatorOf [(freshAccount ''a'')\<lparr>isRateLimited := Some True,
        rateLimitedUntil := Some 500, failureCount := Some 3\<rparr>] RoundRobin))) \<noteq>
     manager (rotatorOf [(freshAccount ''a'')\<lparr>isRateLimited := Some True,
        rateLimitedUntil := Some 500, failureCount := Some 3\<rparr>] RoundRobin)"
  by (simp add: handleResponse_def handle429_def reportFailure_def reportSuccess_def
      RATE_LIMIT_COOLDOWN_MS_def andThen_def eval_defs)

section \<open>Status 5xx\<close>

lemma handleResponse_5xx:
  "500 \<le> status \<Longrightarrow> status < 600 \<Longrightarrow>
   handleResponse status e r clock st =
     andThen (handle5xx e (clock 0) st)
       (\<lambda>result st1. case result of
          (True, d) \<Rightarrow> (Inr \<lparr>action = Retry, newCredentials = None, delay = Some d\<rparr>, st1)
        | (False, _) \<Rightarrow>
            (case getNextAccount (clock 1) st1 of
               (Some a, st2) \<Rightarrow>
                 (Inr \<lparr>action = Switch, newCredentials = Some a, delay = None\<rparr>, st2)
             | (None, st2) \<Rightarrow> (Inr \<lparr>action = Fail, newCredentials = None, delay = None\<rparr>, st2)))"
  by (simp add: handleResponse_def)

lemma handle5xx_retry:
  "getAccount (manager st) e = Some a \<Longrightarrow> orNat (failureCount a) 0 + 1 < 3 \<Longrightarrow>
   handle5xx e now st =
     (Inr (True, 2 ^ orNat (failureCount a) 0 * 1000),
      st\<lparr>manager := updateAccount e (\<lambda>x. x\<lparr>failureCount := Some (orNat (failureCount a) 0 + 1)\<rparr>)
            (manager st)\<rparr>)"
  by (simp add: handle5xx_def Let_def CIRCUIT_BREAKER_THRESHOLD_def)

lemma handle5xx_give_up:
  "getAccount (manager st) e = Some a \<Longrightarrow> \<not> orNat (failureCount a) 0 + 1 < 3 \<Longrightarrow>
   handle5xx e now st =
     andThen (reportFailure e False RATE_LIMIT_COOLDOWN_MS now st) (\<lambda>_ st1. (Inr (False, 0), st1))"
  by (simp add: handle5xx_def Let_def CIRCUIT_BREAKER_THRESHOLD_def)

text \<open>
  C4. What the code does on three consecutive 5xx outcomes for an account that starts
  with no failures: the first is answered with retry after 1000 ms, the second with
  retry after 2000 ms, and on the third \<^verbatim>\<open>handle5xx\<close> gives up: it calls
  \<^verbatim>\<open>reportFailure\<close> and answers no retry, delay 0. When one minute after the
  reading of the clock is a date that can be rendered, the report stores failure
  count 3 and rate-limits the account, and the interceptor answers switch or fail;
  otherwise the report throws. In neither case is the third answer a retry after
  4000 ms.
\<close>

theorem handle5xx_third_failure:
  assumes known: "getAccount (manager st) e = Some a" and zero: "orNat (failureCount a) 0 = 0"
    and srv: "500 \<le> status" "status < 600"
  shows "fst (handleResponse status e r c1 st) =
           Inr \<lparr>action = Retry, newCredentials = None, delay = Some 1000\<rparr> \<and>
         fst (handleResponse status e r c2 (snd (handleResponse status e r c1 st))) =
           Inr \<lparr>action = Retry, newCredentials = None, delay = Some 2000\<rparr> \<and>
         handle5xx e (c3 0) (snd (handleResponse status e r c2 (snd (handleResponse status e r c1 st)))) =
           andThen (reportFailure e False RATE_LIMIT_COOLDOWN_MS (c3 0)
                      (snd (handleResponse status e r c2 (snd (handleResponse status e r c1 st)))))
             (\<lambda>_ st1. (Inr (False, 0), st1)) \<and>
         (if dateInRange (c3 0 + RATE_LIMIT_COOLDOWN_MS)
          then handle5xx e (c3 0) (snd (handleResponse status e r c2 (snd (handleResponse status e r c1 st)))) =
                 (Inr (False, 0), snd (reportFailure e False RATE_LIMIT_COOLDOWN_MS (c3 0)
                    (snd (handleResponse status e r c2 (snd (handleResponse status e r c1 st)))))) \<and>
               (\<exists>a3. getAccount (manager (snd (handle5xx e (c3 0)
                    (snd (handleResponse status e r c2 (snd (handleResponse status e r c1 st))))))) e = Some a3 \<and>
                  failureCount a3 = Some 3 \<and> isRateLimited a3 = Some True) \<and>
               (\<exists>resp. fst (handleResponse status e r c3
                    (snd (handleResponse status e r c2 (snd (handleResponse status e r c1 st))))) = Inr resp \<and>
                  action resp \<noteq> Retry \<and> delay resp = None)
          else handleResponse status e r c3
                 (snd (handleResponse status e r c2 (snd (handleResponse status e r c1 st)))) =
               (Inl RangeError, snd (handleResponse status e r c2 (snd (handleResponse status e r c1 st)))))"
proof -
  define st1 where "st1 = snd (handleResponse status e r c1 st)"
  define st2 where "st2 = snd (handleResponse status e r c2 st1)"
  have r1: "handleResponse status e r c1 st =
      (Inr \<lparr>action = Retry, newCredentials = None, delay = Some 1000\<rparr>,
       st\<lparr>manager := updateAccount e (\<lambda>x. x\<lparr>failureCount := Some 1\<rparr>) (manager st)\<rparr>)"
    using handle5xx_retry [OF known, of "c1 0"] zero
    by (simp add: handleResponse_5xx [OF srv] andThen_def)
  have k1: "getAccount (manager st1) e = Some (a\<lparr>failureCount := Some 1\<rparr>)"
    by (simp add: st1_def r1 getAccount_updateAccount_same known)
  have r2: "handleResponse status e r c2 st1 =
      (Inr \<lparr>action = Retry, newCredentials = None, delay = Some 2000\<rparr>,
       st1\<lparr>manager := updateAccount e (\<lambda>x. x\<lparr>failureCount := Some 2\<rparr>) (manager st1)\<rparr>)"
    using handle5xx_retry [OF k1, of "c2 0"]
    by (simp add: handleResponse_5xx [OF srv] orNat_def numeral_2_eq_2 andThen_def)
  have k2: "getAccount (manager st2) e = Some (a\<lparr>failureCount := Some 2\<rparr>)"
    by (simp add: st2_def r2 getAccount_updateAccount_same k1)
  have h3: "handle5xx e (c3 0) st2 =
      andThen (reportFailure e False RATE_LIMIT_COOLDOWN_MS (c3 0) st2) (\<lambda>_ st1. (Inr (False, 0), st1))"
    using handle5xx_give_up [OF k2, of "c3 0"] by (simp add: orNat_def)
  have rf: "reportFailure e False RATE_LIMIT_COOLDOWN_MS (c3 0) st2 =
      (if dateInRange (c3 0 + RATE_LIMIT_COOLDOWN_MS)
       then (Inr True, st2\<lparr>manager := updateAccount e (failedUpdate False RATE_LIMIT_COOLDOWN_MS (c3 0))
                                     (manager st2)\<rparr>)
       else (Inl RangeError, st2))"
    by (simp add: reportFailure_known [OF k2] orNat_def CIRCUIT_BREAKER_THRESHOLD_def)
  have f1: "fst (handleResponse status e r c1 st) =
      Inr \<lparr>action = Retry, newCredentials = None, delay = Some 1000\<rparr>"
    by (simp add: r1)
  have f2: "fst (handleResponse status e r c2 st1) =
      Inr \<lparr>action = Retry, newCredentials = None, delay = Some 2000\<rparr>"
    by (simp add: r2)
  have third: "if dateInRange (c3 0 + RATE_LIMIT_COOLDOWN_MS)
          then handle5xx e (c3 0) st2 =
                 (Inr (False, 0), snd (reportFailure e False RATE_LIMIT_COOLDOWN_MS (c3 0) st2)) \<and>
               (\<exists>a3. getAccount (manager (snd (handle5xx e (c3 0) st2))) e = Some a3 \<and>
                  failureCount a3 = Some 3 \<and> isRateLimited a3 = Some True) \<and>
               (\<exists>resp. fst (handleResponse status e r c3 st2) = Inr resp \<and>
                  action resp \<noteq> Retry \<and> delay resp = None)
          else handleResponse status e r c3 st2 = (Inl RangeError, st2)"
  proof (cases "dateInRange (c3 0 + RATE_LIMIT_COOLDOWN_MS)")
    case True
    have h: "handle5xx e (c3 0) st2 =
        (Inr (False, 0), snd (reportFailure e False RATE_LIMIT_COOLDOWN_MS (c3 0) st2))"
      using True by (simp add: h3 rf andThen_def)
    have l: "\<exists>a3. getAccount (manager (snd (handle5xx e (c3 0) st2))) e = Some a3 \<and>
        failureCount a3 = Some 3 \<and> isRateLimited a3 = Some True"
      using True
      by (simp add: h rf getAccount_updateAccount_same k2 failedUpdate_def orNat_def
          CIRCUIT_BREAKER_THRESHOLD_def)
    have "\<exists>resp. fst (handleResponse status e r c3 st2) = Inr resp \<and>
        action resp \<noteq> Retry \<and> delay resp = None"
      by (simp add: handleResponse_5xx [OF srv] h andThen_def split: prod.splits option.splits)
    with True h l show ?thesis by simp
  next
    case False
    then show ?thesis
      by (simp add: handleResponse_5xx [OF srv] h3 rf andThen_def)
  qed
  from f1 f2 h3 third show ?thesis
    unfolding st2_def st1_def by simp
qed

theorem handle5xx_third_failure_witness:
  "fst (handleResponse 503 ''a'' None (\<lambda>n. 1000)
     (rotatorOf [freshAccount ''a'', freshAccount ''b''] RoundRobin)) =
     Inr \<lparr>action = Retry, newCredentials = None, delay = Some 1000\<rparr> \<and>
   fst (handleResponse 503 ''a'' None (\<lambda>n. 2000)
     (snd (handleResponse 503 ''a'' None (\<lambda>n. 1000)
        (rotatorOf [freshAccount ''a'', freshAccount ''b''] RoundRobin)))) =
     Inr \<lparr>action = Retry, newCredentials = None, delay = Some 2000\<rparr> \<and>
   (\<exists>a3. getAccount (manager (snd (handle5xx ''a'' 4000 (snd (handleResponse 503 ''a'' None (\<lambda>n. 2000)
     (snd (handleResponse 503 ''a'' None (\<lambda>n. 1000)
        (rotatorOf [freshAccount ''a'', freshAccount ''b''] RoundRobin)))))))) ''a'' = Some a3 \<and>
      failureCount a3 = Some 3 \<and> isRateLimited a3 = Some True) \<and>
   (\<exists>resp. fst (handleResponse 503 ''a'' None (\<lambda>n. 4000) (snd (handleResponse 503 ''a'' None (\<lambda>n. 2000)
     (snd (handleResponse 503 ''a'' None (\<lambda>n. 1000)
        (rotatorOf [freshAccount ''a'', freshAccount ''b''] RoundRobin)))))) = Inr resp \<and>
      action resp \<noteq> Retry \<and> delay resp = None)"
proof -
  let ?st = "rotatorOf [freshAccount ''a'', freshAccount ''b''] RoundRobin"
  have k: "getAccount (manager ?st) ''a'' = Some (freshAccount ''a'')"
    by (simp add: rotatorOf_def freshAccount_def)
  have z: "orNat (failureCount (freshAccount ''a'')) 0 = 0"
    by (simp add: freshAccount_def orNat_def)
  have s: "(500::int) \<le> 503" "(503::int) < 600" by simp_all
  have d: "dateInRange (4000 + RATE_LIMIT_COOLDOWN_MS)"
    by (simp add: dateInRange_def RATE_LIMIT_COOLDOWN_MS_def)
  note t = handle5xx_third_failure [OF k z s, where r = None and ?c1.0 = "\<lambda>n. 1000"
      and ?c2.0 = "\<lambda>n. 2000" and ?c3.0 = "\<lambda>n. 4000"]
  from t have first: "fst (handleResponse 503 ''a'' None (\<lambda>n. 1000) ?st) =
      Inr \<lparr>action = Retry, newCredentials = None, delay = Some 1000\<rparr>"
    by (rule conjunct1)
  from t have second: "fst (handleResponse 503 ''a'' None (\<lambda>n. 2000)
      (snd (handleResponse 503 ''a'' None (\<lambda>n. 1000) ?st))) =
      Inr \<lparr>action = Retry, newCredentials = None, delay = Some 2000\<rparr>"
    by (rule conjunct2 [THEN conjunct1])
  from t [THEN conjunct2, THEN conjunct2, THEN conjunct2, unfolded if_P [OF d]]
  have third: "(\<exists>a3. getAccount (manager (snd (handle5xx ''a'' 4000 (snd (handleResponse 503 ''a'' None (\<lambda>n. 2000)
        (snd (handleResponse 503 ''a'' None (\<lambda>n. 1000) ?st))))))) ''a'' = Some a3 \<and>
      failureCount a3 = Some 3 \<and> isRateLimited a3 = Some True) \<and>
     (\<exists>resp. fst (handleResponse 503 ''a'' None (\<lambda>n. 4000) (snd (handleResponse 503 ''a'' None (\<lambda>n. 2000)
        (snd (handleResponse 503 ''a'' None (\<lambda>n. 1000) ?st))))) = Inr resp \<and>
      action resp \<noteq> Retry \<and> delay resp = None)"
    by (rule conjunct2)
  from first second third show ?thesis by blast
qed

end
